theory Spec2Isabelle
  imports Complex_Main
begin

section \<open>The workspace splitter (splitter.cxx)\<close>

text \<open>
  A shallow embedding of the algorithmic parts of \<^verbatim>\<open>splitter.cxx\<close>: the channel index
  parser \<^verbatim>\<open>splitter::fillIndices\<close>, the parameter classification and the dataset
  handling of \<^verbatim>\<open>splitter::makeWorkspace\<close>, \<^verbatim>\<open>splitter::rebuildCatData\<close> and the
  formula rewriter \<^verbatim>\<open>splitter::editRFV\<close>.

  Conventions.
  \<^item> A \<^verbatim>\<open>TString\<close> is a \<^typ>\<open>string\<close>.
  \<^item> A C \<^verbatim>\<open>int\<close> has 32 bits and is an \<^typ>\<open>int\<close> between \<open>- 2\<^sup>3\<^sup>1\<close> and \<open>2\<^sup>3\<^sup>1 - 1\<close>.
    Where the code computes an \<^verbatim>\<open>int\<close> from a text or counts one up, the model writes out
    what happens at the ends of the range: \<^verbatim>\<open>atoi\<close> keeps the low 32 bits, and the
    increment of a loop counter that holds \<open>2\<^sup>3\<^sup>1 - 1\<close> is the error \<open>IntegerOverflow\<close>.
    The entry counts and bin counts that the code is given are values of that range.
  \<^item> A \<^verbatim>\<open>double\<close> is a \<^typ>\<open>real\<close>: values are carried around and compared, the rounding
    of floating-point arithmetic is not modelled.
  \<^item> Every way the program stops (\<^verbatim>\<open>auxUtil::alertAndAbort\<close>, a failing \<^verbatim>\<open>assert\<close>,
    the use of a null pointer) is a value of the type \<open>error\<close>, returned as \<open>Inl\<close>.
    \<^verbatim>\<open>assert\<close> is the assertion of a build without \<^verbatim>\<open>NDEBUG\<close>.
\<close>

datatype error =
    InvalidSyntax string
  | AssertionFailed
  | NullDereference
  | IntegerOverflow

subsection \<open>Strings: the \<^verbatim>\<open>TString\<close> and C library operations the code calls\<close>

text \<open>\<^verbatim>\<open>isspace\<close>, \<^verbatim>\<open>isdigit\<close> and \<^verbatim>\<open>tolower\<close> of the C locale.\<close>

definition isspace :: "char \<Rightarrow> bool" where
  "isspace c = (c \<in> set [CHR '' '', CHR 0x09, CHR 0x0A, CHR 0x0B, CHR 0x0C, CHR 0x0D])"

definition isdigit :: "char \<Rightarrow> bool" where
  "isdigit c = (c \<in> set ''0123456789'')"

definition tolower :: "char \<Rightarrow> char" where
  "tolower c =
     (case map_of (zip ''ABCDEFGHIJKLMNOPQRSTUVWXYZ'' ''abcdefghijklmnopqrstuvwxyz'') c of
        Some l \<Rightarrow> l
      | None \<Rightarrow> c)"

text \<open>\<^verbatim>\<open>TString::ToLower\<close>.\<close>

definition ToLower :: "string \<Rightarrow> string" where
  "ToLower s = map tolower s"

text \<open>\<^verbatim>\<open>TString::Contains\<close>: the pattern occurs as a contiguous substring.\<close>

fun Contains :: "string \<Rightarrow> string \<Rightarrow> bool" where
  "Contains [] pat = (pat = [])"
| "Contains (c # cs) pat = (take (length pat) (c # cs) = pat \<or> Contains cs pat)"

text \<open>
  \<^verbatim>\<open>TString::ReplaceAll(s1, s2)\<close>: scanning from the left, every occurrence of \<open>s1\<close> is
  replaced by \<open>s2\<close> and the scan goes on behind the inserted text; an empty \<open>s1\<close>
  changes nothing.
\<close>

function ReplaceAll :: "string \<Rightarrow> string \<Rightarrow> string \<Rightarrow> string" where
  "ReplaceAll s1 s2 [] = []"
| "ReplaceAll s1 s2 (c # cs) =
     (if s1 \<noteq> [] \<and> take (length s1) (c # cs) = s1
      then s2 @ ReplaceAll s1 s2 (drop (length s1) (c # cs))
      else c # ReplaceAll s1 s2 cs)"
  by pat_completeness auto
termination
  by (relation "measure (\<lambda>(s1, s2, s). length s)") auto

text \<open>
  \<^verbatim>\<open>TString::Tokenize(delim)\<close>: the string is cut at every character of \<open>delim\<close>;
  empty pieces are not tokens. \<open>tokens\<close> carries the piece read so far.
\<close>

fun tokens :: "string \<Rightarrow> string \<Rightarrow> string \<Rightarrow> string list" where
  "tokens delim cur [] = (if cur = [] then [] else [cur])"
| "tokens delim cur (c # cs) =
     (if c \<in> set delim
      then (if cur = [] then [] else [cur]) @ tokens delim [] cs
      else tokens delim (cur @ [c]) cs)"

definition Tokenize :: "string \<Rightarrow> string \<Rightarrow> string list" where
  "Tokenize delim s = tokens delim [] s"

text \<open>The largest \<^verbatim>\<open>int\<close>, and the conversion of a \<^verbatim>\<open>long\<close> to an \<^verbatim>\<open>int\<close>, which keeps
  the low 32 bits.\<close>

definition INT_MAX :: int where
  "INT_MAX = 2 ^ 31 - 1"

definition toInt32 :: "int \<Rightarrow> int" where
  "toInt32 x = (x + 2 ^ 31) mod 2 ^ 32 - 2 ^ 31"

text \<open>
  The C function \<^verbatim>\<open>strtol\<close> in base 10, for its value: leading white space, an optional
  sign, then the longest run of decimal digits; 0 when there is no digit; a value outside
  the 64 bits of a \<^verbatim>\<open>long\<close> is replaced by the nearest end of that range.
\<close>

definition digitVal :: "char \<Rightarrow> int" where
  "digitVal c = int (length (takeWhile (\<lambda>d. d \<noteq> c) ''0123456789''))"

definition strtol :: "string \<Rightarrow> int" where
  "strtol s =
     (let s1 = dropWhile isspace s;
          neg = (s1 \<noteq> [] \<and> hd s1 = CHR ''-'');
          s2 = (if s1 \<noteq> [] \<and> (hd s1 = CHR ''-'' \<or> hd s1 = CHR ''+'') then tl s1 else s1);
          v = foldl (\<lambda>a c. a * 10 + digitVal c) 0 (takeWhile isdigit s2)
      in max (- (2 ^ 63)) (min (2 ^ 63 - 1) (if neg then - v else v)))"

text \<open>
  The C function \<^verbatim>\<open>atoi\<close>, as the C library of the platform defines it:
  \<^verbatim>\<open>(int) strtol(nptr, NULL, 10)\<close>. For the text \<open>2147483648\<close> it gives \<open>- 2147483648\<close>.
\<close>

definition atoi :: "string \<Rightarrow> int" where
  "atoi s = toInt32 (strtol s)"

text \<open>\<^verbatim>\<open>TString::Atoi\<close>: the blanks are taken out, then \<^verbatim>\<open>atoi\<close>.\<close>

definition Atoi :: "string \<Rightarrow> int" where
  "Atoi s = atoi (filter (\<lambda>c. c \<noteq> CHR '' '') s)"

text \<open>\<^verbatim>\<open>TString::Format("%d", i)\<close> for a non-negative \<open>i\<close>.\<close>

definition digitChar :: "nat \<Rightarrow> char" where
  "digitChar d = ''0123456789'' ! d"

fun showNat :: "nat \<Rightarrow> string" where
  "showNat n = (if n < 10 then [digitChar n] else showNat (n div 10) @ [digitChar (n mod 10)])"

declare showNat.simps [simp del]

text \<open>
  Modelled from the spec: \<^verbatim>\<open>auxUtil::removeWhiteSpace\<close> is not among the source files;
  the specification says that white space inside tokens is stripped before parsing.
\<close>

definition removeWhiteSpace :: "string \<Rightarrow> string" where
  "removeWhiteSpace s = filter (\<lambda>c. \<not> isspace c) s"

subsection \<open>\<^verbatim>\<open>splitter::fillIndices\<close>\<close>

text \<open>
  The loop \<^verbatim>\<open>for (int t = int1; t <= int2; t++) m_useIndices.push_back(t)\<close>. When \<open>t\<close>
  holds the largest \<^verbatim>\<open>int\<close>, \<^verbatim>\<open>t++\<close> overflows: C gives the program no defined behaviour
  from there (the test \<^verbatim>\<open>t <= int2\<close> can never fail, so the loop cannot end as written).
\<close>

function pushRange :: "int \<Rightarrow> int \<Rightarrow> int list \<Rightarrow> error + int list" where
  "pushRange t int2 useIndices =
     (if t \<le> int2 then
        (if t = INT_MAX then Inl IntegerOverflow
         else pushRange (t + 1) int2 (useIndices @ [t]))
      else Inr useIndices)"
  by pat_completeness auto
termination
  by (relation "measure (\<lambda>(t, int2, useIndices). nat (int2 + 1 - t))") auto

declare pushRange.simps [simp del]

text \<open>
  The loop \<^verbatim>\<open>for (int i = 0; i < num; i++) m_useIndices.push_back(i)\<close> of the branch
  \<open>all\<close>. Its counter stays below \<open>num\<close>, so its increment cannot overflow.
\<close>

function pushAll :: "int \<Rightarrow> int \<Rightarrow> int list \<Rightarrow> int list" where
  "pushAll i num useIndices =
     (if i < num then pushAll (i + 1) num (useIndices @ [i]) else useIndices)"
  by pat_completeness auto
termination
  by (relation "measure (\<lambda>(i, num, useIndices). nat (num - i))") auto

declare pushAll.simps [simp del]

text \<open>
  The body of the loop over the comma-separated tokens: \<open>iStr\<close> is the token,
  \<open>useIndices\<close> the vector \<^verbatim>\<open>m_useIndices\<close> before the step.
\<close>

definition fillToken :: "string \<Rightarrow> int list \<Rightarrow> error + int list" where
  "fillToken iStr useIndices =
     (let jArray = Tokenize ''-'' iStr;
          jNum = length jArray
      in if jNum = 1 then
           (let jStr = ReplaceAll '' '' '''' (jArray ! 0)
            in Inr (useIndices @ [Atoi jStr]))
         else if jNum = 2 then
           (let int1 = Atoi (jArray ! 0);
                int2 = Atoi (jArray ! 1)
            in if int1 \<le> int2 then pushRange int1 int2 useIndices
               else Inl AssertionFailed)
         else Inl (InvalidSyntax iStr))"

fun fillTokens :: "string list \<Rightarrow> int list \<Rightarrow> error + int list" where
  "fillTokens [] useIndices = Inr useIndices"
| "fillTokens (iStr # rest) useIndices =
     (case fillToken iStr useIndices of
        Inl e \<Rightarrow> Inl e
      | Inr useIndices' \<Rightarrow> fillTokens rest useIndices')"

text \<open>
  \<open>fillIndices numBins indices useIndices\<close>: \<open>numBins\<close> is \<^verbatim>\<open>m_cat->numBins(0)\<close>, the
  number of channels, and \<open>useIndices\<close> the vector \<^verbatim>\<open>m_useIndices\<close> before the call.
  The result is the vector after the call, or the error that stopped the program.
\<close>

definition fillIndices :: "int \<Rightarrow> string \<Rightarrow> int list \<Rightarrow> error + int list" where
  "fillIndices numBins indices useIndices =
     (let indices1 = ToLower indices
      in if indices1 = ''all'' then Inr (pushAll 0 numBins useIndices)
         else fillTokens (Tokenize '','' (removeWhiteSpace indices1)) useIndices)"

subsection \<open>\<^verbatim>\<open>splitter::editRFV\<close>\<close>

text \<open>
  The nodes of the expression graph. \<^verbatim>\<open>editRFV\<close> tells a \<^verbatim>\<open>RooFormulaVar\<close> from every
  other class by \<^verbatim>\<open>typeid\<close>, and of a \<^verbatim>\<open>RooFormulaVar\<close> it reads the name, the expression
  and the list of dependents; of any other node only the name is used.
\<close>

datatype RooAbsArg =
    RooFormulaVar (GetName: string) (expression: string) (dependents: "RooAbsArg list")
  | RooOtherArg (GetName: string)

text \<open>
  \<^verbatim>\<open>RooArgSet::add\<close>: an argument whose name is already in the set is not added.
\<close>

definition RooArgSet_add :: "RooAbsArg list \<Rightarrow> RooAbsArg \<Rightarrow> RooAbsArg list" where
  "RooArgSet_add varList arg =
     (if GetName arg \<in> set (map GetName varList) then varList else varList @ [arg])"

text \<open>
  The first loop of the raw-name case: \<^verbatim>\<open>reNameMap[oldName] = newName\<close> with
  \<^verbatim>\<open>newName = TString::Format("@%d", i)\<close>, for \<open>i\<close> from 0 to \<open>num - 1\<close>.
\<close>

definition reNameMap :: "string list \<Rightarrow> (string \<rightharpoonup> string)" where
  "reNameMap allOldNames =
     foldl (\<lambda>m i. m(allOldNames ! i \<mapsto> ''@'' @ showNat i)) Map.empty [0..<length allOldNames]"

text \<open>
  \<^verbatim>\<open>TMath::Sort(num, a, index, true)\<close> of ROOT fills \<open>index\<close> with the indices of \<open>a\<close>
  in decreasing order of the elements. ROOT leaves the order of equal elements open;
  here equal elements keep their order.
\<close>

definition TMath_Sort_down :: "nat list \<Rightarrow> nat list" where
  "TMath_Sort_down a = sort_key (\<lambda>i. - int (a ! i)) [0..<length a]"

text \<open>
  The second loop of the raw-name case: for each \<open>index\<close> of \<open>indice\<close> in turn,
  \<^verbatim>\<open>newFormExpr.ReplaceAll(oldName, newName)\<close>. \<^verbatim>\<open>reNameMap[oldName]\<close> of a
  \<^verbatim>\<open>std::map\<close> is the empty string for a missing key.
\<close>

definition replaceNames :: "string list \<Rightarrow> nat list \<Rightarrow> string \<Rightarrow> string" where
  "replaceNames allOldNames indice formExpr =
     foldl (\<lambda>newFormExpr index.
              let oldName = allOldNames ! index;
                  newName = (case reNameMap allOldNames oldName of Some n \<Rightarrow> n | None \<Rightarrow> [])
              in ReplaceAll oldName newName newFormExpr)
       formExpr indice"

text \<open>
  The new expression text: \<open>None\<close> where \<^verbatim>\<open>editRFV\<close> returns \<^verbatim>\<open>NULL\<close> before any
  rewriting, \<open>Some newFormExpr\<close> otherwise. \<open>m_editRFV\<close> is the configured edit mode and
  \<open>names\<close> are the names of the dependents, in their order.
\<close>

definition rewriteExpr :: "int \<Rightarrow> string \<Rightarrow> string list \<Rightarrow> string option" where
  "rewriteExpr m_editRFV formExpr names =
     (if Contains formExpr ''@'' then None
      else if Contains formExpr ''x['' \<and> Contains formExpr '']'' then
        (if m_editRFV < 2 then None
         else Some (ReplaceAll '']'' '''' (ReplaceAll ''x['' ''@'' formExpr)))
      else
        (if m_editRFV < 1 then None
         else Some (replaceNames names (TMath_Sort_down (map length names)) formExpr)))"

text \<open>
  \<open>editRFV m_editRFV oldVar\<close> is \<open>Inr None\<close> for the result \<^verbatim>\<open>NULL\<close>, \<open>Inr (Some v)\<close>
  for a new node \<open>v\<close>. \<open>editDependents\<close> is the loop over \<^verbatim>\<open>oldVar->dependents()\<close>
  that fills \<open>varList\<close>: for a dependent that is a \<^verbatim>\<open>RooFormulaVar\<close> the result
  \<open>newParg\<close> of the recursive call is dereferenced in \<^verbatim>\<open>varList.add(*newParg)\<close>
  without a test, so the result \<^verbatim>\<open>NULL\<close> there stops the program.
  The pointer \<^verbatim>\<open>oldVar\<close> is a \<^verbatim>\<open>RooFormulaVar *\<close>: for any other node the
  \<^verbatim>\<open>dynamic_cast\<close> of the callers gives the null pointer, which \<^verbatim>\<open>assert(oldVar)\<close> refuses.
\<close>

fun editRFV :: "int \<Rightarrow> RooAbsArg \<Rightarrow> error + RooAbsArg option"
  and editDependents :: "int \<Rightarrow> RooAbsArg list \<Rightarrow> RooAbsArg list \<Rightarrow> error + RooAbsArg list"
where
  "editRFV m_editRFV (RooFormulaVar varName formExpr deps) =
     (case rewriteExpr m_editRFV formExpr (map GetName deps) of
        None \<Rightarrow> Inr None
      | Some newFormExpr \<Rightarrow>
          (case editDependents m_editRFV deps [] of
             Inl e \<Rightarrow> Inl e
           | Inr varList \<Rightarrow> Inr (Some (RooFormulaVar varName newFormExpr varList))))"
| "editRFV m_editRFV (RooOtherArg n) = Inl AssertionFailed"
| "editDependents m_editRFV [] varList = Inr varList"
| "editDependents m_editRFV (RooFormulaVar n e ds # rest) varList =
     (case editRFV m_editRFV (RooFormulaVar n e ds) of
        Inl err \<Rightarrow> Inl err
      | Inr None \<Rightarrow> Inl NullDereference
      | Inr (Some newParg) \<Rightarrow> editDependents m_editRFV rest (RooArgSet_add varList newParg))"
| "editDependents m_editRFV (RooOtherArg n # rest) varList =
     editDependents m_editRFV rest (RooArgSet_add varList (RooOtherArg n))"

text \<open>
  The caller in \<^verbatim>\<open>makeWorkspace\<close>: \<^verbatim>\<open>if (newVar) subComb->import(*newVar, ...)\<close>. The
  node that the output workspace uses is the new one, or the old one when the result is
  \<^verbatim>\<open>NULL\<close>.
\<close>

definition editComponent :: "int \<Rightarrow> RooAbsArg \<Rightarrow> error + RooAbsArg" where
  "editComponent m_editRFV oldVar =
     (case editRFV m_editRFV oldVar of
        Inl e \<Rightarrow> Inl e
      | Inr None \<Rightarrow> Inr oldVar
      | Inr (Some newVar) \<Rightarrow> Inr newVar)"

subsection \<open>\<^verbatim>\<open>splitter::makeWorkspace\<close>: the classification of the parameters\<close>

text \<open>
  A \<^verbatim>\<open>RooRealVar\<close>: its name, its value, its range and its constancy flag. The parameters
  of a channel and the members of the sets of the \<^verbatim>\<open>ModelConfig\<close> are taken to be
  \<^verbatim>\<open>RooRealVar\<close>s, as the \<^verbatim>\<open>dynamic_cast\<close>s of the loop expect.
\<close>

record RooRealVar =
  rrvName :: string
  getVal :: real
  getMin :: real
  getMax :: real
  isConstant :: bool

text \<open>
  The sets of the original \<^verbatim>\<open>ModelConfig\<close> \<^verbatim>\<open>m_mc\<close>.
  \<^verbatim>\<open>GetConditionalObservables()\<close> is \<open>None\<close> for the null pointer; \<^verbatim>\<open>m_hasCondObs\<close> is
  computed from it in the constructor.
\<close>

record ModelConfig =
  GetParametersOfInterest :: "RooRealVar list"
  GetGlobalObservables :: "RooRealVar list"
  GetConditionalObservables :: "RooRealVar list option"

definition m_hasCondObs :: "ModelConfig \<Rightarrow> bool" where
  "m_hasCondObs m_mc = (GetConditionalObservables m_mc \<noteq> None)"

text \<open>\<^verbatim>\<open>RooArgSet::find(name)\<close>: the member of that name, or the null pointer.\<close>

definition findByName :: "RooRealVar list \<Rightarrow> string \<Rightarrow> RooRealVar option" where
  "findByName args n = find (\<lambda>a. rrvName a = n) args"

text \<open>\<^verbatim>\<open>RooArgSet::add\<close> on sets of variables: a name already present is not added.\<close>

definition addVar :: "RooRealVar list \<Rightarrow> RooRealVar \<Rightarrow> RooRealVar list" where
  "addVar args a = (if rrvName a \<in> set (map rrvName args) then args else args @ [a])"

text \<open>The four sets that the loop over the channels fills.\<close>

record subSets =
  subPoi :: "RooRealVar list"
  subGobs :: "RooRealVar list"
  subCobs :: "RooRealVar list"
  subNuis :: "RooRealVar list"

definition emptySubSets :: subSets where
  "emptySubSets = \<lparr>subPoi = [], subGobs = [], subCobs = [], subNuis = []\<rparr>"

text \<open>
  The body of the loop over \<^verbatim>\<open>indivNuis\<close>, the parameters of the density of one channel:
  \<open>v\<close> is the parameter, \<open>s\<close> the four sets before the step.
\<close>

definition classifyParameter :: "ModelConfig \<Rightarrow> RooRealVar \<Rightarrow> subSets \<Rightarrow> subSets" where
  "classifyParameter m_mc v s =
     (case findByName (GetParametersOfInterest m_mc) (rrvName v) of
        Some var \<Rightarrow> s\<lparr>subPoi := addVar (subPoi s) var\<rparr>
      | None \<Rightarrow>
          (case findByName (GetGlobalObservables m_mc) (rrvName v) of
             Some var \<Rightarrow> s\<lparr>subGobs := addVar (subGobs s) var\<rparr>
           | None \<Rightarrow>
               (case (if m_hasCondObs m_mc
                      then findByName (the (GetConditionalObservables m_mc)) (rrvName v)
                      else None) of
                  Some var \<Rightarrow> s\<lparr>subCobs := addVar (subCobs s) var\<rparr>
                | None \<Rightarrow>
                    (if \<not> isConstant v then s\<lparr>subNuis := addVar (subNuis s) v\<rparr> else s))))"

definition classifyParameters :: "ModelConfig \<Rightarrow> RooRealVar list \<Rightarrow> subSets \<Rightarrow> subSets" where
  "classifyParameters m_mc indivNuis s = foldl (\<lambda>s v. classifyParameter m_mc v s) s indivNuis"

text \<open>
  The roles of section 4.2 of the specification, in its words: the first of the five
  rules that applies gives the role.
\<close>

datatype role = POI | GlobalObservable | ConditionalObservable | Nuisance | Dropped

definition specRole :: "ModelConfig \<Rightarrow> RooRealVar \<Rightarrow> role" where
  "specRole m_mc v =
     (if rrvName v \<in> set (map rrvName (GetParametersOfInterest m_mc)) then POI
      else if rrvName v \<in> set (map rrvName (GetGlobalObservables m_mc)) then GlobalObservable
      else if (case GetConditionalObservables m_mc of
                 Some cobs \<Rightarrow> rrvName v \<in> set (map rrvName cobs)
               | None \<Rightarrow> False) then ConditionalObservable
      else if \<not> isConstant v then Nuisance
      else Dropped)"

text \<open>The names of the members of a set.\<close>

definition names :: "RooRealVar list \<Rightarrow> string set" where
  "names args = set (map rrvName args)"

subsection \<open>Datasets and \<^verbatim>\<open>splitter::rebuildCatData\<close>\<close>

text \<open>
  A row of a dataset gives a value to each of the dataset's variables, by name; an event
  is a row with its weight. Of a \<^verbatim>\<open>RooDataSet\<close> the code uses the name and the events.
\<close>

type_synonym row = "(string \<times> real) list"

record RooDataSet =
  dataName :: string
  events :: "(row \<times> real) list"

definition numEntries :: "RooDataSet \<Rightarrow> int" where
  "numEntries d = int (length (events d))"

text \<open>\<^verbatim>\<open>sumEntries()\<close>: the sum of the weights of the events.\<close>

definition sumEntries :: "RooDataSet \<Rightarrow> real" where
  "sumEntries d = sum_list (map snd (events d))"

definition PDFPOSTFIX :: string where
  "PDFPOSTFIX = ''_deComposed''"

text \<open>
  \<^verbatim>\<open>*indivObs = *datai->get(j)\<close>: every variable of \<open>indivObs\<close> that the row has a value
  for takes that value.
\<close>

definition assignRow :: "RooRealVar list \<Rightarrow> row \<Rightarrow> RooRealVar list" where
  "assignRow indivObs r =
     map (\<lambda>v. case map_of r (rrvName v) of Some x \<Rightarrow> v\<lparr>getVal := x\<rparr> | None \<Rightarrow> v) indivObs"

text \<open>The row that \<^verbatim>\<open>RooDataSet::add\<close> stores: the current values of the variables.\<close>

definition rowOf :: "RooRealVar list \<Rightarrow> row" where
  "rowOf indivObs = map (\<lambda>v. (rrvName v, getVal v)) indivObs"

text \<open>
  The loop of \<^verbatim>\<open>rebuildCatData\<close> over the entries of \<open>datai\<close>: \<open>evs\<close> are the entries
  still to read, \<open>indivObs\<close> the observables with their current values and \<open>new\<close> the
  events of \<open>dataNew_i\<close> so far.
\<close>

fun rebuildLoop ::
  "(row \<times> real) list \<Rightarrow> RooRealVar list \<Rightarrow> (row \<times> real) list
     \<Rightarrow> RooRealVar list \<times> (row \<times> real) list" where
  "rebuildLoop [] indivObs new = (indivObs, new)"
| "rebuildLoop ((r, dataWgt) # evs) indivObs new =
     (let indivObs' = assignRow indivObs r
      in rebuildLoop evs indivObs' (new @ [(rowOf indivObs', dataWgt)]))"

text \<open>
  \<open>rebuildCatData datai indivObs\<close> gives the new dataset and the observables with the
  values the loop leaves in them.
\<close>

definition rebuildCatData :: "RooDataSet \<Rightarrow> RooRealVar list \<Rightarrow> RooDataSet \<times> RooRealVar list" where
  "rebuildCatData datai indivObs =
     (let (indivObs', new) = rebuildLoop (events datai) indivObs []
      in (\<lparr>dataName = dataName datai @ PDFPOSTFIX, events = new\<rparr>, indivObs'))"

subsection \<open>\<^verbatim>\<open>splitter::makeWorkspace\<close>: the dataset of a channel\<close>

text \<open>
  A one-dimensional histogram of ROOT with \<open>GetNbinsX\<close> bins of equal width between
  \<open>xmin\<close> and \<open>xmax\<close>. \<open>contents\<close> has \<open>GetNbinsX + 2\<close> elements: bin 0 collects
  the values below \<open>xmin\<close>, bin \<open>GetNbinsX + 1\<close> those from \<open>xmax\<close> on.
  \<open>FindBin\<close> and \<open>GetBinCenter\<close> are the formulas of \<^verbatim>\<open>TAxis\<close>.
\<close>

record TH1 =
  GetNbinsX :: nat
  xmin :: real
  xmax :: real
  contents :: "real list"

definition emptyTH1 :: "nat \<Rightarrow> real \<Rightarrow> real \<Rightarrow> TH1" where
  "emptyTH1 n lo hi = \<lparr>GetNbinsX = n, xmin = lo, xmax = hi, contents = replicate (n + 2) 0\<rparr>"

definition FindBin :: "TH1 \<Rightarrow> real \<Rightarrow> nat" where
  "FindBin h x =
     (if x < xmin h then 0
      else if \<not> x < xmax h then GetNbinsX h + 1
      else 1 + nat \<lfloor>real (GetNbinsX h) * (x - xmin h) / (xmax h - xmin h)\<rfloor>)"

definition GetBinCenter :: "TH1 \<Rightarrow> nat \<Rightarrow> real" where
  "GetBinCenter h i =
     (let binwidth = (xmax h - xmin h) / real (GetNbinsX h)
      in xmin h + (real i - 1) * binwidth + binwidth / 2)"

definition GetBinContent :: "TH1 \<Rightarrow> nat \<Rightarrow> real" where
  "GetBinContent h i = contents h ! i"

definition Fill :: "TH1 \<Rightarrow> real \<Rightarrow> real \<Rightarrow> TH1" where
  "Fill h x w =
     (let bin = FindBin h x
      in h\<lparr>contents := (contents h)[bin := contents h ! bin + w]\<rparr>)"

text \<open>
  \<^verbatim>\<open>datai->createHistogram(name, obsVar, RooFit::Binning(n, lo, hi))\<close> of RooFit: every
  event of the dataset is filled into the histogram at its value of the variable, with
  its weight. \<open>obsName\<close> is the name of the variable; it is a variable of the dataset
  (an observable of the channel), so every row has a value for it.
\<close>

definition createHistogram :: "RooDataSet \<Rightarrow> string \<Rightarrow> nat \<Rightarrow> real \<Rightarrow> real \<Rightarrow> TH1" where
  "createHistogram datai obsName n lo hi =
     foldl (\<lambda>h (r, w). case map_of r obsName of Some x \<Rightarrow> Fill h x w | None \<Rightarrow> h)
       (emptyTH1 n lo hi) (events datai)"

text \<open>
  \<^verbatim>\<open>RooRealVar::setVal\<close>: a value outside the range of the variable (by more than
  \<open>10\<^sup>-\<^sup>6\<close>) is replaced by the limit it passes.
\<close>

definition setVal :: "RooRealVar \<Rightarrow> real \<Rightarrow> RooRealVar" where
  "setVal v x =
     (let c1 = (if x > getMax v + 1 / 10 ^ 6 then getMax v else x);
          c2 = (if x < getMin v - 1 / 10 ^ 6 then getMin v else c1)
      in v\<lparr>getVal := c2\<rparr>)"

text \<open>The conversion of a \<^verbatim>\<open>double\<close> to an \<^verbatim>\<open>int\<close>: the fractional part is discarded.\<close>

definition toInt :: "real \<Rightarrow> int" where
  "toInt x = (if 0 \<le> x then \<lfloor>x\<rfloor> else \<lceil>x\<rceil>)"

text \<open>
  The test of the rebin branch:
  \<^verbatim>\<open>int numEntries = datai->numEntries(); int sumEntries = datai->sumEntries();\<close>
  \<^verbatim>\<open>bool isBinned = (numEntries != sumEntries); isBinned += (numEntries < m_reBin);\<close>
\<close>

definition isBinned :: "int \<Rightarrow> RooDataSet \<Rightarrow> bool" where
  "isBinned m_reBin datai =
     (let numEntries = numEntries datai;
          sumEntries = toInt (sumEntries datai)
      in (numEntries \<noteq> sumEntries) \<or> (numEntries < m_reBin))"

text \<open>
  The loop over the bins of the histogram:
  \<^verbatim>\<open>for (int i = 1, n = hist->GetNbinsX(); i <= n; ++i)\<close>, which sets the first
  observable to the centre of bin \<open>i\<close> and adds the observables with the content of the
  bin as weight. \<open>k\<close> counts the bins still to visit, \<open>i\<close> is the bin.
\<close>

fun rebinLoop ::
  "TH1 \<Rightarrow> nat \<Rightarrow> nat \<Rightarrow> RooRealVar list \<Rightarrow> (row \<times> real) list
     \<Rightarrow> RooRealVar list \<times> (row \<times> real) list" where
  "rebinLoop hist 0 i indivObs new = (indivObs, new)"
| "rebinLoop hist (Suc k) i indivObs new =
     (let indivObs' = setVal (hd indivObs) (GetBinCenter hist i) # tl indivObs
      in rebinLoop hist k (i + 1) indivObs' (new @ [(rowOf indivObs', GetBinContent hist i)]))"

text \<open>
  The rebin branch proper. \<^verbatim>\<open>indivObs->first()\<close> of an empty set is the null pointer,
  which \<^verbatim>\<open>obsVar->getMin()\<close> then uses. The result is the old dataset under its new name,
  the new dataset and the observables as the loop leaves them.
\<close>

definition rebinData ::
  "int \<Rightarrow> RooDataSet \<Rightarrow> RooRealVar list \<Rightarrow> error + RooDataSet \<times> RooDataSet \<times> RooRealVar list" where
  "rebinData m_reBin datai indivObs =
     (let dataiName = dataName datai;
          datai' = datai\<lparr>dataName := dataiName @ ''_old''\<rparr>
      in case indivObs of
           [] \<Rightarrow> Inl NullDereference
         | obsVar # others \<Rightarrow>
             (let hist = createHistogram datai' (rrvName obsVar) (nat m_reBin)
                           (getMin obsVar) (getMax obsVar);
                  (indivObs', new) = rebinLoop hist (GetNbinsX hist) 1 indivObs []
              in Inr (datai', \<lparr>dataName = dataiName, events = new\<rparr>, indivObs')))"

text \<open>
  The block \<^verbatim>\<open>/* Handle dataset */\<close> of the loop over the channels: the dataset \<open>datai\<close>
  after the step, the dataset stored in \<^verbatim>\<open>subDataMap\<close> for the channel and the
  observables with their values after the step.
\<close>

definition handleDataset ::
  "int \<Rightarrow> RooDataSet \<Rightarrow> RooRealVar list \<Rightarrow> error + RooDataSet \<times> RooDataSet \<times> RooRealVar list" where
  "handleDataset m_reBin datai indivObs =
     (if m_reBin > 0 then
        (if isBinned m_reBin datai
         then (let (new, indivObs') = rebuildCatData datai indivObs in Inr (datai, new, indivObs'))
         else rebinData m_reBin datai indivObs)
      else (let (new, indivObs') = rebuildCatData datai indivObs in Inr (datai, new, indivObs')))"

section \<open>Properties\<close>

subsection \<open>The channel index parser\<close>

lemma digit_cases:
  "d < 10 \<Longrightarrow>
     d = 0 \<or> d = 1 \<or> d = 2 \<or> d = 3 \<or> d = 4 \<or> d = 5 \<or> d = 6 \<or> d = 7 \<or> d = 8 \<or> d = (9::nat)"
  by arith

lemma digitChar_isdigit: "d < 10 \<Longrightarrow> isdigit (digitChar d)"
  using digit_cases [of d] by (auto simp: isdigit_def digitChar_def)

lemma digitVal_digitChar: "d < 10 \<Longrightarrow> digitVal (digitChar d) = int d"
  using digit_cases [of d] by (auto simp: digitVal_def digitChar_def)

lemma isdigit_facts:
  "isdigit c \<Longrightarrow>
     \<not> isspace c \<and> c \<noteq> CHR ''-'' \<and> c \<noteq> CHR ''+'' \<and> c \<noteq> CHR '' '' \<and> c \<noteq> CHR '',''"
  by (auto simp: isdigit_def isspace_def)

lemma showNat_isdigit: "c \<in> set (showNat n) \<Longrightarrow> isdigit c"
proof (induction n arbitrary: c rule: showNat.induct)
  case (1 n)
  show ?case
  proof (cases "n < 10")
    case True
    with "1.prems" show ?thesis
      by (simp add: showNat.simps [of n] digitChar_isdigit)
  next
    case False
    with "1.prems" "1.IH" show ?thesis
      by (auto simp: showNat.simps [of n] digitChar_isdigit)
  qed
qed

lemma showNat_nonempty: "showNat n \<noteq> []"
  by (simp add: showNat.simps [of n])

lemma foldl_showNat: "foldl (\<lambda>a c. a * 10 + digitVal c) 0 (showNat n) = int n"
proof (induction n rule: showNat.induct)
  case (1 n)
  show ?case
  proof (cases "n < 10")
    case True
    then show ?thesis
      by (simp add: showNat.simps [of n] digitVal_digitChar)
  next
    case False
    have "int (n div 10) * 10 + int (n mod 10) = int n"
      by presburger
    with False "1.IH" show ?thesis
      by (simp add: showNat.simps [of n] digitVal_digitChar)
  qed
qed

lemma foldl_digits_nonneg:
  "0 \<le> a \<Longrightarrow> 0 \<le> foldl (\<lambda>a c. a * 10 + digitVal c) a s"
  by (induction s arbitrary: a) (simp_all add: digitVal_def)

lemma strtol_digits:
  assumes "s \<noteq> []" and "\<forall>c \<in> set s. isdigit c"
  shows "strtol s = min (2 ^ 63 - 1) (foldl (\<lambda>a c. a * 10 + digitVal c) 0 s)"
proof -
  from assms obtain c cs where s: "s = c # cs" by (cases s) auto
  with assms have c: "isdigit c" by simp
  have d: "dropWhile isspace s = s"
    using s c isdigit_facts [of c] by simp
  have t: "takeWhile isdigit s = s"
    using assms(2) by simp
  have n: "hd s \<noteq> CHR ''-'' \<and> hd s \<noteq> CHR ''+''"
    using s c isdigit_facts [of c] by simp
  have "0 \<le> foldl (\<lambda>a c. a * 10 + digitVal c) 0 s"
    by (rule foldl_digits_nonneg) simp
  then show ?thesis
    by (simp add: strtol_def Let_def d n t)
qed

lemma toInt32_id: "- (2 ^ 31) \<le> x \<Longrightarrow> x \<le> INT_MAX \<Longrightarrow> toInt32 x = x"
  by (simp add: toInt32_def INT_MAX_def)

text \<open>
  \<^verbatim>\<open>Atoi\<close> reads back the decimal numeral of a natural number that an \<^verbatim>\<open>int\<close> can hold.
\<close>

lemma Atoi_showNat: "int n \<le> INT_MAX \<Longrightarrow> Atoi (showNat n) = int n"
proof -
  assume b: "int n \<le> INT_MAX"
  have f: "filter (\<lambda>c. c \<noteq> CHR '' '') (showNat n) = showNat n"
    using showNat_isdigit isdigit_facts by (auto simp: filter_id_conv)
  have "strtol (showNat n) = min (2 ^ 63 - 1) (int n)"
    using strtol_digits [of "showNat n"] showNat_nonempty showNat_isdigit
    by (simp add: foldl_showNat)
  also have "\<dots> = int n"
    using b by (simp add: INT_MAX_def)
  finally show ?thesis
    unfolding Atoi_def f atoi_def using b by (simp add: toInt32_id)
qed

text \<open>The values that \<^verbatim>\<open>Atoi\<close> reads from some texts.\<close>

lemma Atoi_values:
  "Atoi ''x'' = 0" "Atoi ''0'' = 0" "Atoi ''1'' = 1" "Atoi ''2'' = 2" "Atoi ''3'' = 3"
  "Atoi ''5'' = 5" "Atoi ''01'' = 1" "Atoi ''03'' = 3"
  "Atoi ''2147483646'' = 2147483646" "Atoi ''2147483647'' = 2147483647"
  "Atoi ''2147483648'' = - 2147483648"
  by (simp_all add: Atoi_def atoi_def strtol_def toInt32_def isspace_def isdigit_def
        digitVal_def)

lemma tokens_append:
  "set s \<inter> set delim = {} \<Longrightarrow> tokens delim cur (s @ rest) = tokens delim (cur @ s) rest"
  by (induction s arbitrary: cur) auto

lemma Tokenize_two:
  assumes "s1 \<noteq> []" "s2 \<noteq> []" "CHR ''-'' \<notin> set s1" "CHR ''-'' \<notin> set s2"
  shows "Tokenize ''-'' (s1 @ ''-'' @ s2) = [s1, s2]"
proof -
  have "tokens ''-'' [] (s1 @ ''-'' @ s2) = tokens ''-'' s1 (''-'' @ s2)"
    using tokens_append [of s1 "''-''" "[]" "''-'' @ s2"] assms by simp
  also have "\<dots> = [s1] @ tokens ''-'' [] (s2 @ [])"
    using assms by simp
  also have "tokens ''-'' [] (s2 @ []) = tokens ''-'' s2 []"
    using tokens_append [of s2 "''-''" "[]" "[]"] assms by simp
  finally show ?thesis using assms by (simp add: Tokenize_def)
qed

text \<open>
  The range loop appends the integers from \<open>t\<close> to \<open>int2\<close>, in increasing order, when
  \<open>int2\<close> is not the largest \<^verbatim>\<open>int\<close>.
\<close>

lemma pushRange_upto:
  "int2 < INT_MAX \<Longrightarrow> pushRange t int2 useIndices = Inr (useIndices @ [t..int2])"
proof (induction t int2 useIndices rule: pushRange.induct)
  case (1 t int2 useIndices)
  show ?case
  proof (cases "t \<le> int2")
    case True
    with "1.prems" have "t \<noteq> INT_MAX" by simp
    with True "1.IH" "1.prems" show ?thesis
      by (simp add: pushRange.simps [of t] upto_rec1)
  next
    case False
    then show ?thesis by (simp add: pushRange.simps [of t])
  qed
qed

text \<open>The first error among the tokens ends the loop.\<close>

lemma fillTokens_append:
  "fillTokens (pre @ rest) useIndices =
     (case fillTokens pre useIndices of Inl e \<Rightarrow> Inl e | Inr mid \<Rightarrow> fillTokens rest mid)"
  by (induction pre arbitrary: useIndices) (auto split: sum.splits)

lemma ReplaceAll_char: "ReplaceAll [c] [] s = filter (\<lambda>d. d \<noteq> c) s"
  by (induction "[c]" "[] :: string" s rule: ReplaceAll.induct) auto

lemma Atoi_ReplaceAll_blank: "Atoi (ReplaceAll '' '' '''' s) = Atoi s"
  by (simp add: Atoi_def ReplaceAll_char)

text \<open>
  C3, as the claim states it, fails: the token \<open>x\<close> is neither an integer nor a range, yet
  \<^verbatim>\<open>Tokenize("-")\<close> gives one part for it, \<^verbatim>\<open>Atoi\<close> reads that part as 0, and the parser
  adds the index 0 and returns normally.
\<close>

theorem fillIndices_letter_token: "fillIndices 4 ''x'' [] = Inr [0]"
  by (simp add: fillIndices_def ToLower_def tolower_def removeWhiteSpace_def isspace_def
        Tokenize_def fillToken_def Atoi_values)

text \<open>
  C3, amended: for every input other than \<open>all\<close> (in any case of the letters) and every
  comma-separated token \<open>iStr\<close> of it that the loop reaches (the tokens \<open>pre\<close> before it
  are read without error and leave the vector \<open>mid\<close>): when cutting the token at the
  dashes gives a number of non-empty parts other than one and two (as for \<open>2-3-4\<close> or
  \<open>-\<close>), the call ends in the fatal error "Invalid syntax" for that token and adds no
  index for it; when it gives exactly one part, the token is not an error whatever its
  characters are: the value \<^verbatim>\<open>Atoi\<close> reads from the part (0 when it does not start with
  digits) is appended and the loop goes on with the tokens \<open>post\<close> behind it.
\<close>

theorem fillIndices_invalid_syntax:
  assumes "ToLower indices \<noteq> ''all''"
    and "Tokenize '','' (removeWhiteSpace (ToLower indices)) = pre @ iStr # post"
    and "fillTokens pre useIndices = Inr mid"
  shows "(length (Tokenize ''-'' iStr) \<noteq> 1 \<and> length (Tokenize ''-'' iStr) \<noteq> 2 \<longrightarrow>
            fillIndices numBins indices useIndices = Inl (InvalidSyntax iStr)) \<and>
         (length (Tokenize ''-'' iStr) = 1 \<longrightarrow>
            fillIndices numBins indices useIndices =
              fillTokens post (mid @ [Atoi (hd (Tokenize ''-'' iStr))]))"
proof -
  have whole: "fillIndices numBins indices useIndices = fillTokens (iStr # post) mid"
    using assms by (simp add: fillIndices_def Let_def fillTokens_append)
  have one: "length (Tokenize ''-'' iStr) = 1 \<Longrightarrow>
      fillToken iStr mid = Inr (mid @ [Atoi (hd (Tokenize ''-'' iStr))])"
    by (cases "Tokenize ''-'' iStr") (simp_all add: fillToken_def Let_def Atoi_ReplaceAll_blank)
  have other: "length (Tokenize ''-'' iStr) \<noteq> 1 \<Longrightarrow> length (Tokenize ''-'' iStr) \<noteq> 2 \<Longrightarrow>
      fillToken iStr mid = Inl (InvalidSyntax iStr)"
    by (simp add: fillToken_def Let_def)
  show ?thesis
    using one other by (auto simp: whole)
qed

theorem fillIndices_invalid_syntax_witness:
  "ToLower ''1,2-3-4'' \<noteq> ''all'' \<and>
   Tokenize '','' (removeWhiteSpace (ToLower ''1,2-3-4'')) = [''1''] @ ''2-3-4'' # [] \<and>
   fillTokens [''1''] [] = Inr [1] \<and>
   length (Tokenize ''-'' ''2-3-4'') = 3 \<and>
   fillIndices 4 ''1,2-3-4'' [] = Inl (InvalidSyntax ''2-3-4'') \<and>
   ToLower ''5,x'' \<noteq> ''all'' \<and>
   Tokenize '','' (removeWhiteSpace (ToLower ''5,x'')) = [''5''] @ ''x'' # [] \<and>
   fillTokens [''5''] [] = Inr [5] \<and>
   length (Tokenize ''-'' ''x'') = 1 \<and>
   fillIndices 4 ''5,x'' [] = Inr [5, 0]"
  using fillIndices_invalid_syntax [of "''1,2-3-4''" "[''1'']" "''2-3-4''" "[]" "[]" "[1]" 4]
    fillIndices_invalid_syntax [of "''5,x''" "[''5'']" "''x''" "[]" "[]" "[5]" 4]
  by (simp add: ToLower_def tolower_def removeWhiteSpace_def isspace_def
        Tokenize_def fillToken_def Atoi_values)

text \<open>
  C4, as the claim states it, fails at the end of the range of an \<^verbatim>\<open>int\<close>. For the
  token \<open>2147483646-2147483647\<close> the loop counter reaches the largest \<^verbatim>\<open>int\<close> and its
  increment overflows, so the call does not return with the two indices appended. For the
  token \<open>1-2147483648\<close> the second part is read as \<open>- 2147483648\<close>, and the assertion
  stops the program although 1 is below 2147483648.
\<close>

theorem fillIndices_range_int_max:
  "fillIndices 4 ''2147483646-2147483647'' [] = Inl IntegerOverflow \<and>
   fillIndices 4 ''1-2147483648'' [] = Inl AssertionFailed"
  by (simp add: fillIndices_def ToLower_def tolower_def removeWhiteSpace_def isspace_def
        Tokenize_def fillToken_def Atoi_values pushRange.simps INT_MAX_def)

text \<open>
  C4, amended: for every input other than \<open>all\<close> and every token of it that the loop
  reaches and that has the two parts \<open>str1\<close> and \<open>str2\<close> around its dash, with \<open>lo\<close>
  and \<open>hi\<close> the \<^verbatim>\<open>int\<close>s that \<^verbatim>\<open>Atoi\<close> reads from them: when \<open>lo > hi\<close> (as in \<open>3-1\<close>)
  the assertion \<^verbatim>\<open>assert(int1 <= int2)\<close> stops the program; when \<open>lo \<le> hi\<close> and \<open>hi\<close> is
  below the largest \<^verbatim>\<open>int\<close>, the token appends exactly \<open>lo, lo + 1, \<dots>, hi\<close>, in
  increasing order, and the loop goes on with the tokens behind it. When the token is
  written with the decimal numerals of two natural numbers that an \<^verbatim>\<open>int\<close> can hold, its
  parts are these numerals and \<open>lo\<close> and \<open>hi\<close> are these numbers.
\<close>

theorem fillIndices_range:
  assumes "ToLower indices \<noteq> ''all''"
    and "Tokenize '','' (removeWhiteSpace (ToLower indices)) = pre @ iStr # post"
    and "fillTokens pre useIndices = Inr mid"
    and "Tokenize ''-'' iStr = [str1, str2]"
  shows "(Atoi str2 < Atoi str1 \<longrightarrow>
            fillIndices numBins indices useIndices = Inl AssertionFailed) \<and>
         (Atoi str1 \<le> Atoi str2 \<and> Atoi str2 < INT_MAX \<longrightarrow>
            fillIndices numBins indices useIndices =
              fillTokens post (mid @ [Atoi str1..Atoi str2])) \<and>
         (\<forall>lo hi. iStr = showNat lo @ ''-'' @ showNat hi \<and> int lo \<le> INT_MAX \<and> int hi \<le> INT_MAX \<longrightarrow>
            str1 = showNat lo \<and> str2 = showNat hi \<and> Atoi str1 = int lo \<and> Atoi str2 = int hi)"
proof -
  have whole: "fillIndices numBins indices useIndices = fillTokens (iStr # post) mid"
    using assms(1,2,3) by (simp add: fillIndices_def Let_def fillTokens_append)
  have tok: "fillToken iStr mid =
      (if Atoi str1 \<le> Atoi str2 then pushRange (Atoi str1) (Atoi str2) mid
       else Inl AssertionFailed)"
    unfolding fillToken_def Let_def assms(4) by simp
  have c1: "Atoi str2 < Atoi str1 \<longrightarrow>
      fillIndices numBins indices useIndices = Inl AssertionFailed"
    unfolding whole using tok by simp
  have c2: "Atoi str1 \<le> Atoi str2 \<and> Atoi str2 < INT_MAX \<longrightarrow>
      fillIndices numBins indices useIndices = fillTokens post (mid @ [Atoi str1..Atoi str2])"
    unfolding whole using tok by (simp add: pushRange_upto)
  have nodash: "CHR ''-'' \<notin> set (showNat n)" for n
    using showNat_isdigit [of "CHR ''-''" n] isdigit_facts [of "CHR ''-''"] by blast
  have c3: "\<forall>lo hi. iStr = showNat lo @ ''-'' @ showNat hi \<and> int lo \<le> INT_MAX \<and> int hi \<le> INT_MAX \<longrightarrow>
      str1 = showNat lo \<and> str2 = showNat hi \<and> Atoi str1 = int lo \<and> Atoi str2 = int hi"
  proof (intro allI impI)
    fix lo hi
    assume h: "iStr = showNat lo @ ''-'' @ showNat hi \<and> int lo \<le> INT_MAX \<and> int hi \<le> INT_MAX"
    have "Tokenize ''-'' (showNat lo @ ''-'' @ showNat hi) = [showNat lo, showNat hi]"
      using Tokenize_two [OF showNat_nonempty showNat_nonempty nodash nodash] .
    with h assms(4) have "str1 = showNat lo" and "str2 = showNat hi" by simp_all
    with h show "str1 = showNat lo \<and> str2 = showNat hi \<and> Atoi str1 = int lo \<and> Atoi str2 = int hi"
      by (simp add: Atoi_showNat)
  qed
  from c1 c2 c3 show ?thesis by blast
qed

theorem fillIndices_range_witness:
  "ToLower ''0-2,5'' \<noteq> ''all'' \<and>
   Tokenize '','' (removeWhiteSpace (ToLower ''0-2,5'')) = [] @ ''0-2'' # [''5''] \<and>
   fillTokens [] [] = Inr [] \<and>
   Tokenize ''-'' ''0-2'' = [''0'', ''2''] \<and>
   Atoi ''0'' = 0 \<and> Atoi ''2'' = 2 \<and> (2::int) < INT_MAX \<and>
   fillIndices 4 ''0-2,5'' [] = Inr [0, 1, 2, 5] \<and>
   ToLower ''3-1'' \<noteq> ''all'' \<and>
   Tokenize '','' (removeWhiteSpace (ToLower ''3-1'')) = [] @ ''3-1'' # [] \<and>
   Tokenize ''-'' ''3-1'' = [''3'', ''1''] \<and>
   Atoi ''3'' = 3 \<and> Atoi ''1'' = 1 \<and>
   fillIndices 4 ''3-1'' [] = Inl AssertionFailed \<and>
   ToLower ''01-03'' \<noteq> ''all'' \<and>
   Tokenize '','' (removeWhiteSpace (ToLower ''01-03'')) = [] @ ''01-03'' # [] \<and>
   Tokenize ''-'' ''01-03'' = [''01'', ''03''] \<and>
   Atoi ''01'' = 1 \<and> Atoi ''03'' = 3 \<and>
   fillIndices 4 ''01-03'' [] = Inr [1, 2, 3]"
proof -
  note a = Atoi_values
  have k: "Tokenize ''-'' ''0-2'' = [''0'', ''2'']" "Tokenize ''-'' ''3-1'' = [''3'', ''1'']"
    "Tokenize ''-'' ''01-03'' = [''01'', ''03'']" "Tokenize ''-'' ''5'' = [''5'']"
    by (simp_all add: Tokenize_def)
  have c: "Tokenize '','' (removeWhiteSpace (ToLower ''0-2,5'')) = [] @ ''0-2'' # [''5'']"
    "Tokenize '','' (removeWhiteSpace (ToLower ''3-1'')) = [] @ ''3-1'' # []"
    "Tokenize '','' (removeWhiteSpace (ToLower ''01-03'')) = [] @ ''01-03'' # []"
    by (simp_all add: ToLower_def tolower_def removeWhiteSpace_def isspace_def Tokenize_def)
  have l: "ToLower ''0-2,5'' \<noteq> ''all''" "ToLower ''3-1'' \<noteq> ''all''" "ToLower ''01-03'' \<noteq> ''all''"
    by (simp_all add: ToLower_def tolower_def)
  have e: "fillTokens [] [] = Inr []" by simp
  have five: "fillToken ''5'' [0, 1, 2] = Inr [0, 1, 2, 5]"
    by (simp add: fillToken_def k a ReplaceAll_char)
  note t1 = fillIndices_range [OF l(1) c(1) e k(1), of 4]
  from t1 [THEN conjunct2, THEN conjunct1] a
  have r1: "fillIndices 4 ''0-2,5'' [] = Inr [0, 1, 2, 5]"
    by (simp add: INT_MAX_def upto_rec1 five)
  note t2 = fillIndices_range [OF l(2) c(2) e k(2), of 4]
  from t2 [THEN conjunct1] a
  have r2: "fillIndices 4 ''3-1'' [] = Inl AssertionFailed"
    by simp
  note t3 = fillIndices_range [OF l(3) c(3) e k(3), of 4]
  from t3 [THEN conjunct2, THEN conjunct1] a
  have r3: "fillIndices 4 ''01-03'' [] = Inr [1, 2, 3]"
    by (simp add: INT_MAX_def upto_rec1)
  from a k c l e r1 r2 r3 show ?thesis
    by (simp add: INT_MAX_def)
qed

subsection \<open>The formula rewriter\<close>

lemma Contains_char: "Contains s [c] = (c \<in> set s)"
  by (induction s) auto

text \<open>
  C8: for every formula node whose expression contains the character \<open>@\<close>, whatever the
  edit mode and the dependents are, \<^verbatim>\<open>editRFV\<close> returns \<^verbatim>\<open>NULL\<close> and rewrites nothing;
  the caller in \<^verbatim>\<open>makeWorkspace\<close> then goes on with the node as it was.
\<close>

theorem editRFV_positional_noop:
  "CHR ''@'' \<in> set formExpr \<Longrightarrow>
     editRFV m_editRFV (RooFormulaVar varName formExpr deps) = Inr None \<and>
     editComponent m_editRFV (RooFormulaVar varName formExpr deps) =
       Inr (RooFormulaVar varName formExpr deps)"
  by (simp add: editComponent_def rewriteExpr_def Contains_char)

theorem editRFV_positional_noop_witness:
  "CHR ''@'' \<in> set ''@0*@1'' \<and>
   editRFV 2 (RooFormulaVar ''f'' ''@0*@1'' [RooOtherArg ''a'', RooOtherArg ''b'']) = Inr None \<and>
   editComponent 2 (RooFormulaVar ''f'' ''@0*@1'' [RooOtherArg ''a'', RooOtherArg ''b'']) =
     Inr (RooFormulaVar ''f'' ''@0*@1'' [RooOtherArg ''a'', RooOtherArg ''b''])"
  using editRFV_positional_noop [of "''@0*@1''" 2 "''f''" "[RooOtherArg ''a'', RooOtherArg ''b'']"]
  by simp

text \<open>
  C1: the claim is what the documentation of the result \<^verbatim>\<open>NULL\<close> asks for, and the code
  does not do it. With edit mode 1, the node \<open>f\<close> with the expression \<open>a+g\<close> and the
  dependents \<open>a\<close> (a plain variable) and \<open>g\<close> (a formula node whose expression \<open>@0*2\<close>
  is positional already): the recursive call for \<open>g\<close> returns \<^verbatim>\<open>NULL\<close>, and the loop
  over the dependents dereferences it. The rewrite of \<open>f\<close> does not complete.
\<close>

theorem editRFV_nested_null:
  "editRFV 1 (RooFormulaVar ''f'' ''a+g''
       [RooOtherArg ''a'', RooFormulaVar ''g'' ''@0*2'' [RooOtherArg ''b'']])
     = Inl NullDereference"
  by (simp add: rewriteExpr_def replaceNames_def reNameMap_def TMath_Sort_down_def
        showNat.simps digitChar_def RooArgSet_add_def)














subsection \<open>The datasets\<close>

lemma rebuildLoop_weights:
  "map snd (snd (rebuildLoop evs indivObs new)) = map snd new @ map snd evs"
  by (induction evs indivObs new rule: rebuildLoop.induct) (simp_all add: Let_def)

text \<open>
  C9: the dataset that \<^verbatim>\<open>rebuildCatData\<close> builds has one event per event of the source,
  in the same order and with the same weight, so it has as many entries as the source
  and its summed weight is that of the source. (The direct-rebuild path stores exactly
  this dataset for the channel.)
\<close>

theorem rebuildCatData_weights:
  "map snd (events (fst (rebuildCatData datai indivObs))) = map snd (events datai) \<and>
   numEntries (fst (rebuildCatData datai indivObs)) = numEntries datai \<and>
   sumEntries (fst (rebuildCatData datai indivObs)) = sumEntries datai"
proof -
  have w: "map snd (events (fst (rebuildCatData datai indivObs))) = map snd (events datai)"
    using rebuildLoop_weights [of "events datai" indivObs "[]"]
    by (simp add: rebuildCatData_def case_prod_beta)
  from w have "length (map snd (events (fst (rebuildCatData datai indivObs)))) =
      length (map snd (events datai))" by simp
  then have n: "numEntries (fst (rebuildCatData datai indivObs)) = numEntries datai"
    by (simp add: numEntries_def)
  from w n show ?thesis by (simp add: sumEntries_def)
qed

lemma rebinData_not_direct:
  "rebinData m_reBin datai indivObs \<noteq> Inr (datai, r)"
proof (cases indivObs)
  case Nil
  then show ?thesis by (simp add: rebinData_def)
next
  case (Cons obsVar others)
  have "datai\<lparr>dataName := dataName datai @ ''_old''\<rparr> \<noteq> datai"
  proof
    assume "datai\<lparr>dataName := dataName datai @ ''_old''\<rparr> = datai"
    then have "dataName (datai\<lparr>dataName := dataName datai @ ''_old''\<rparr>) = dataName datai"
      by simp
    then show False by simp
  qed
  with Cons show ?thesis
    by (simp add: rebinData_def Let_def split: prod.splits)
qed

text \<open>
  C6, amended: with a positive rebin target the channel takes the direct-rebuild path
  when its entry count differs from its summed weight converted to an integer (the
  fractional part discarded), or its entry count is below the target; otherwise it takes
  the rebin path, whose result is never that of the direct rebuild; and with a rebin
  target that is not positive the direct-rebuild path is always taken.
\<close>

theorem handleDataset_paths:
  "(0 < m_reBin \<and> (numEntries datai \<noteq> toInt (sumEntries datai) \<or> numEntries datai < m_reBin) \<longrightarrow>
      handleDataset m_reBin datai indivObs = Inr (datai, rebuildCatData datai indivObs)) \<and>
   (0 < m_reBin \<and> numEntries datai = toInt (sumEntries datai) \<and> m_reBin \<le> numEntries datai \<longrightarrow>
      handleDataset m_reBin datai indivObs = rebinData m_reBin datai indivObs \<and>
      handleDataset m_reBin datai indivObs \<noteq> Inr (datai, rebuildCatData datai indivObs)) \<and>
   (m_reBin \<le> 0 \<longrightarrow>
      handleDataset m_reBin datai indivObs = Inr (datai, rebuildCatData datai indivObs))"
  using rebinData_not_direct [of m_reBin datai indivObs "rebuildCatData datai indivObs"]
  by (auto simp: handleDataset_def isBinned_def Let_def split: prod.splits)

lemmas eval_defs = handleDataset_def isBinned_def numEntries_def sumEntries_def toInt_def
      rebinData_def createHistogram_def emptyTH1_def Fill_def FindBin_def GetBinCenter_def GetBinContent_def
      setVal_def rowOf_def Let_def rebuildCatData_def assignRow_def PDFPOSTFIX_def

lemma setVal_setVal: "setVal (setVal v c) x = setVal v x"
  by (simp add: setVal_def Let_def)

lemma rebinLoop_events:
  "snd (rebinLoop hist k i (v # others) new) =
     new @ map (\<lambda>j. (rowOf (setVal v (GetBinCenter hist j) # others), GetBinContent hist j)) [i..<i + k]"
proof (induction k arbitrary: i v new)
  case 0
  then show ?case by simp
next
  case (Suc k)
  have "[i..<i + Suc k] = i # [Suc i..<Suc i + k]"
    by (simp add: upt_rec)
  with Suc.IH [of "Suc i" "setVal v (GetBinCenter hist i)"] show ?case
    by (simp add: Let_def setVal_setVal)
qed

lemma createHistogram_axis:
  "GetNbinsX (createHistogram datai obsName n lo hi) = n \<and>
   xmin (createHistogram datai obsName n lo hi) = lo \<and>
   xmax (createHistogram datai obsName n lo hi) = hi"
proof -
  have "GetNbinsX (foldl (\<lambda>h (r, w). case map_of r obsName of Some x \<Rightarrow> Fill h x w | None \<Rightarrow> h) h0 evs) = GetNbinsX h0 \<and>
        xmin (foldl (\<lambda>h (r, w). case map_of r obsName of Some x \<Rightarrow> Fill h x w | None \<Rightarrow> h) h0 evs) = xmin h0 \<and>
        xmax (foldl (\<lambda>h (r, w). case map_of r obsName of Some x \<Rightarrow> Fill h x w | None \<Rightarrow> h) h0 evs) = xmax h0"
    for h0 evs
    by (induction evs arbitrary: h0) (auto simp: Fill_def Let_def split: option.splits)
  then show ?thesis
    by (simp add: createHistogram_def emptyTH1_def)
qed

lemma createHistogram_rename:
  "createHistogram (datai\<lparr>dataName := n\<rparr>) obsName k lo hi = createHistogram datai obsName k lo hi"
  by (simp add: createHistogram_def)

lemma bin_center_in_range:
  assumes "lo < hi" and "1 \<le> i" and "i \<le> n"
  shows "lo < lo + (real i - 1) * ((hi - lo) / real n) + (hi - lo) / real n / 2"
    and "lo + (real i - 1) * ((hi - lo) / real n) + (hi - lo) / real n / 2 < hi"
proof -
  define w where "w = (hi - lo) / real n"
  have n: "0 < real n" using assms by simp
  have w: "0 < w" using assms n by (simp add: w_def)
  have wn: "w * real n = hi - lo" using n by (simp add: w_def)
  have "0 \<le> (real i - 1) * w" using assms w by simp
  then show "lo < lo + (real i - 1) * ((hi - lo) / real n) + (hi - lo) / real n / 2"
    using w unfolding w_def [symmetric] by simp
  have a: "(real i - 1) * w \<le> (real n - 1) * w"
    by (rule mult_right_mono) (use assms w in simp_all)
  have b: "(real n - 1) * w = real n * w - w"
    by (simp add: algebra_simps)
  from a b w have "(real i - 1) * w + w / 2 < real n * w"
    by linarith
  then show "lo + (real i - 1) * ((hi - lo) / real n) + (hi - lo) / real n / 2 < hi"
    using wn unfolding w_def [symmetric] by (simp add: mult.commute)
qed

text \<open>
  C5, amended: when the rebin target is positive and the channel is not bypassed, for a
  channel whose first observable \<open>obsVar\<close> has a proper range: the histogram \<open>hist\<close> is
  the one of \<open>obsVar\<close> over its declared range with the configured number of bins, and the
  rebuilt dataset keeps the name of the source and has exactly one event per bin of the
  histogram from bin 1 to the last one (under- and overflow aside), empty bins included,
  in the order of the bins; its value of \<open>obsVar\<close> is the centre of the bin and its
  weight the content of the bin. (The other observables keep the values they had.)
\<close>

theorem rebinData_one_event_per_bin:
  assumes "0 < m_reBin" and "\<not> isBinned m_reBin datai"
    and "indivObs = obsVar # others" and "getMin obsVar < getMax obsVar"
    and "hist = createHistogram datai (rrvName obsVar) (nat m_reBin) (getMin obsVar) (getMax obsVar)"
  shows "GetNbinsX hist = nat m_reBin \<and> xmin hist = getMin obsVar \<and> xmax hist = getMax obsVar \<and>
         (\<exists>datai' new indivObs'.
            handleDataset m_reBin datai indivObs = Inr (datai', new, indivObs') \<and>
            dataName new = dataName datai \<and>
            length (events new) = nat m_reBin \<and>
            events new =
              map (\<lambda>i. ((rrvName obsVar, GetBinCenter hist i) # rowOf others, GetBinContent hist i))
                [1..<Suc (nat m_reBin)])"
proof -
  let ?n = "nat m_reBin"
  have axis: "GetNbinsX hist = ?n \<and> xmin hist = getMin obsVar \<and> xmax hist = getMax obsVar"
    using assms(5) createHistogram_axis by simp
  have n: "0 < ?n" using assms(1) by simp
  have val: "rowOf (setVal obsVar (GetBinCenter hist i) # others) =
      (rrvName obsVar, GetBinCenter hist i) # rowOf others" if "i \<in> set [1..<Suc ?n]" for i
  proof -
    from that have i: "1 \<le> i" "i \<le> ?n" by auto
    have c: "GetBinCenter hist i =
        getMin obsVar + (real i - 1) * ((getMax obsVar - getMin obsVar) / real ?n) +
          (getMax obsVar - getMin obsVar) / real ?n / 2"
      using axis by (simp add: GetBinCenter_def Let_def)
    from bin_center_in_range [OF assms(4) i]
    have "getMin obsVar < GetBinCenter hist i" and "GetBinCenter hist i < getMax obsVar"
      unfolding c by simp_all
    then have "getVal (setVal obsVar (GetBinCenter hist i)) = GetBinCenter hist i"
      by (simp add: setVal_def Let_def)
    moreover have "rrvName (setVal obsVar (GetBinCenter hist i)) = rrvName obsVar"
      by (simp add: setVal_def Let_def)
    ultimately show ?thesis by (simp add: rowOf_def)
  qed
  have ev: "snd (rebinLoop hist ?n 1 (obsVar # others) []) =
      map (\<lambda>i. ((rrvName obsVar, GetBinCenter hist i) # rowOf others, GetBinContent hist i))
        [1..<Suc ?n]"
    unfolding rebinLoop_events using val by simp
  have "handleDataset m_reBin datai indivObs =
      Inr (datai\<lparr>dataName := dataName datai @ ''_old''\<rparr>,
           \<lparr>dataName = dataName datai, events = snd (rebinLoop hist ?n 1 (obsVar # others) [])\<rparr>,
           fst (rebinLoop hist ?n 1 (obsVar # others) []))"
    using assms(1,2,3,5) axis
    by (simp add: handleDataset_def rebinData_def Let_def createHistogram_rename case_prod_beta)
  with ev axis show ?thesis by simp
qed

theorem rebinData_one_event_per_bin_witness:
  "(0::int) < 2 \<and>
   \<not> isBinned 2 \<lparr>dataName = ''obsData'', events = [([(''x'', 1/4)], 1), ([(''x'', 1/2)], 1)]\<rparr> \<and>
   getMin \<lparr>rrvName = ''x'', getVal = 0, getMin = 0, getMax = 1, isConstant = False\<rparr>
     < getMax \<lparr>rrvName = ''x'', getVal = 0, getMin = 0, getMax = 1, isConstant = False\<rparr> \<and>
   (\<exists>datai' new indivObs'.
      handleDataset 2 \<lparr>dataName = ''obsData'', events = [([(''x'', 1/4)], 1), ([(''x'', 1/2)], 1)]\<rparr>
        [\<lparr>rrvName = ''x'', getVal = 0, getMin = 0, getMax = 1, isConstant = False\<rparr>]
        = Inr (datai', new, indivObs') \<and>
      events new = [([(''x'', 1/4)], 1), ([(''x'', 3/4)], 1)])"
proof -
  let ?d = "\<lparr>dataName = ''obsData'', events = [([(''x'', 1/4)], 1), ([(''x'', 1/2)], 1)]\<rparr>"
  let ?v = "\<lparr>rrvName = ''x'', getVal = 0, getMin = 0, getMax = 1, isConstant = False\<rparr>"
  let ?h = "createHistogram ?d (rrvName ?v) (nat 2) (getMin ?v) (getMax ?v)"
  have h1: "(0::int) < 2" by simp
  have h2: "\<not> isBinned 2 ?d"
    by (simp add: isBinned_def numEntries_def sumEntries_def toInt_def)
  have h3: "[?v] = ?v # []" by simp
  have h4: "getMin ?v < getMax ?v" by simp
  have h5: "?h = createHistogram ?d (rrvName ?v) (nat 2) (getMin ?v) (getMax ?v)" by simp
  have e: "map (\<lambda>i. ((rrvName ?v, GetBinCenter ?h i) # rowOf [], GetBinContent ?h i)) [1..<Suc (nat 2)]
      = [([(''x'', 1/4)], 1), ([(''x'', 3/4)], 1)]"
    by (simp add: createHistogram_def emptyTH1_def Fill_def FindBin_def GetBinCenter_def
          GetBinContent_def rowOf_def Let_def upt_rec numeral_2_eq_2)
  from rebinData_one_event_per_bin [OF h1 h2 h3 h4 h5] h2 e show ?thesis
    by auto
qed

text \<open>
  C5, as the claim states it, fails: two events of weight 1 that fall into the first of
  two bins. The second bin is empty, and the rebuilt dataset has an event for it all the
  same, with the weight 0: two events for one non-empty bin.
\<close>

theorem rebinData_empty_bin:
  "handleDataset 2
     \<lparr>dataName = ''obsData'', events = [([(''x'', 1/8)], 1), ([(''x'', 1/4)], 1)]\<rparr>
     [\<lparr>rrvName = ''x'', getVal = 0, getMin = 0, getMax = 1, isConstant = False\<rparr>]
   = Inr (\<lparr>dataName = ''obsData_old'', events = [([(''x'', 1/8)], 1), ([(''x'', 1/4)], 1)]\<rparr>,
      \<lparr>dataName = ''obsData'', events = [([(''x'', 1/4)], 2), ([(''x'', 3/4)], 0)]\<rparr>,
      [\<lparr>rrvName = ''x'', getVal = 3/4, getMin = 0, getMax = 1, isConstant = False\<rparr>]) \<and>
   GetBinContent (createHistogram
       \<lparr>dataName = ''obsData'', events = [([(''x'', 1/8)], 1), ([(''x'', 1/4)], 1)]\<rparr> ''x'' 2 0 1) 2 = 0"
  by (simp add: eval_defs numeral_2_eq_2)

text \<open>
  C6, as the claim states it, fails: a channel of 3 entries with the weights 1, 1 and 3/2
  has an entry count (3) that differs from its summed weight (7/2), and with the rebin
  target 2 it is rebinned all the same: the stored dataset is the one built from the
  histogram, not the direct rebuild. The sum is converted to \<^verbatim>\<open>int\<close> before the comparison.
\<close>

theorem handleDataset_fractional_weight:
  "real_of_int (numEntries
       \<lparr>dataName = ''obsData'', events = [([(''x'', 1/4)], 1), ([(''x'', 1/2)], 1), ([(''x'', 3/4)], 3/2)]\<rparr>)
     \<noteq> sumEntries
       \<lparr>dataName = ''obsData'', events = [([(''x'', 1/4)], 1), ([(''x'', 1/2)], 1), ([(''x'', 3/4)], 3/2)]\<rparr> \<and>
   handleDataset 2
     \<lparr>dataName = ''obsData'', events = [([(''x'', 1/4)], 1), ([(''x'', 1/2)], 1), ([(''x'', 3/4)], 3/2)]\<rparr>
     [\<lparr>rrvName = ''x'', getVal = 0, getMin = 0, getMax = 1, isConstant = False\<rparr>]
   = Inr (\<lparr>dataName = ''obsData_old'',
            events = [([(''x'', 1/4)], 1), ([(''x'', 1/2)], 1), ([(''x'', 3/4)], 3/2)]\<rparr>,
      \<lparr>dataName = ''obsData'', events = [([(''x'', 1/4)], 1), ([(''x'', 3/4)], 5/2)]\<rparr>,
      [\<lparr>rrvName = ''x'', getVal = 3/4, getMin = 0, getMax = 1, isConstant = False\<rparr>]) \<and>
   fst (rebuildCatData
     \<lparr>dataName = ''obsData'', events = [([(''x'', 1/4)], 1), ([(''x'', 1/2)], 1), ([(''x'', 3/4)], 3/2)]\<rparr>
     [\<lparr>rrvName = ''x'', getVal = 0, getMin = 0, getMax = 1, isConstant = False\<rparr>])
   = \<lparr>dataName = ''obsData_deComposed'',
        events = [([(''x'', 1/4)], 1), ([(''x'', 1/2)], 1), ([(''x'', 3/4)], 3/2)]\<rparr>"
  by (simp add: eval_defs numeral_2_eq_2)

theorem handleDataset_paths_witness:
  "handleDataset 3
     \<lparr>dataName = ''obsData'', events = [([(''x'', 1/8)], 1), ([(''x'', 1/4)], 1)]\<rparr>
     [\<lparr>rrvName = ''x'', getVal = 0, getMin = 0, getMax = 1, isConstant = False\<rparr>]
   = Inr (\<lparr>dataName = ''obsData'', events = [([(''x'', 1/8)], 1), ([(''x'', 1/4)], 1)]\<rparr>,
      \<lparr>dataName = ''obsData_deComposed'', events = [([(''x'', 1/8)], 1), ([(''x'', 1/4)], 1)]\<rparr>,
      [\<lparr>rrvName = ''x'', getVal = 1/4, getMin = 0, getMax = 1, isConstant = False\<rparr>]) \<and>
   handleDataset (- 1)
     \<lparr>dataName = ''obsData'', events = [([(''x'', 1/8)], 1), ([(''x'', 1/4)], 1)]\<rparr>
     [\<lparr>rrvName = ''x'', getVal = 0, getMin = 0, getMax = 1, isConstant = False\<rparr>]
   = Inr (\<lparr>dataName = ''obsData'', events = [([(''x'', 1/8)], 1), ([(''x'', 1/4)], 1)]\<rparr>,
      \<lparr>dataName = ''obsData_deComposed'', events = [([(''x'', 1/8)], 1), ([(''x'', 1/4)], 1)]\<rparr>,
      [\<lparr>rrvName = ''x'', getVal = 1/4, getMin = 0, getMax = 1, isConstant = False\<rparr>]) \<and>
   handleDataset 2
     \<lparr>dataName = ''obsData'', events = [([(''x'', 1/8)], 1), ([(''x'', 1/4)], 1)]\<rparr>
     [\<lparr>rrvName = ''x'', getVal = 0, getMin = 0, getMax = 1, isConstant = False\<rparr>]
   = rebinData 2
     \<lparr>dataName = ''obsData'', events = [([(''x'', 1/8)], 1), ([(''x'', 1/4)], 1)]\<rparr>
     [\<lparr>rrvName = ''x'', getVal = 0, getMin = 0, getMax = 1, isConstant = False\<rparr>]"
proof -
  let ?d = "\<lparr>dataName = ''obsData'', events = [([(''x'', 1/8)], 1), ([(''x'', 1/4)], 1)]\<rparr>"
  let ?o = "[\<lparr>rrvName = ''x'', getVal = 0, getMin = 0, getMax = 1, isConstant = False\<rparr>]"
  have n: "numEntries ?d = 2" "toInt (sumEntries ?d) = 2"
    by (simp_all add: numEntries_def sumEntries_def toInt_def)
  have r: "rebuildCatData ?d ?o =
      (\<lparr>dataName = ''obsData_deComposed'', events = [([(''x'', 1/8)], 1), ([(''x'', 1/4)], 1)]\<rparr>,
       [\<lparr>rrvName = ''x'', getVal = 1/4, getMin = 0, getMax = 1, isConstant = False\<rparr>])"
    by (simp add: rebuildCatData_def assignRow_def rowOf_def PDFPOSTFIX_def Let_def)
  from handleDataset_paths [of 3 ?d ?o] handleDataset_paths [of "- 1" ?d ?o]
    handleDataset_paths [of 2 ?d ?o] n r
  show ?thesis by simp
qed

text \<open>
  C10: the summed weight is converted to \<^verbatim>\<open>int\<close> before it is compared with the entry
  count. So a dataset whose summed weight truncates to its entry count counts as binned
  only when its entry count is below the rebin target, whatever the fractional part of
  the sum is; and with a positive target not above its entry count it is rebinned.
  So it is for 5 entries of summed weight 5.7 and the target 5.
\<close>

theorem isBinned_truncated_sum:
  assumes "toInt (sumEntries datai) = numEntries datai"
  shows "isBinned m_reBin datai = (numEntries datai < m_reBin) \<and>
         (0 < m_reBin \<and> m_reBin \<le> numEntries datai \<longrightarrow>
            handleDataset m_reBin datai indivObs = rebinData m_reBin datai indivObs)"
  using assms by (simp add: handleDataset_def isBinned_def Let_def)

theorem isBinned_truncated_sum_witness:
  "sumEntries \<lparr>dataName = ''obsData'', events =
       [([(''x'', 1/10)], 1), ([(''x'', 3/10)], 1), ([(''x'', 1/2)], 1), ([(''x'', 7/10)], 1),
        ([(''x'', 9/10)], 17/10)]\<rparr> = 57/10 \<and>
   numEntries \<lparr>dataName = ''obsData'', events =
       [([(''x'', 1/10)], 1), ([(''x'', 3/10)], 1), ([(''x'', 1/2)], 1), ([(''x'', 7/10)], 1),
        ([(''x'', 9/10)], 17/10)]\<rparr> = 5 \<and>
   toInt (57/10) = 5 \<and>
   \<not> isBinned 5 \<lparr>dataName = ''obsData'', events =
       [([(''x'', 1/10)], 1), ([(''x'', 3/10)], 1), ([(''x'', 1/2)], 1), ([(''x'', 7/10)], 1),
        ([(''x'', 9/10)], 17/10)]\<rparr> \<and>
   handleDataset 5 \<lparr>dataName = ''obsData'', events =
       [([(''x'', 1/10)], 1), ([(''x'', 3/10)], 1), ([(''x'', 1/2)], 1), ([(''x'', 7/10)], 1),
        ([(''x'', 9/10)], 17/10)]\<rparr>
       [\<lparr>rrvName = ''x'', getVal = 0, getMin = 0, getMax = 1, isConstant = False\<rparr>]
   = Inr (\<lparr>dataName = ''obsData_old'', events =
       [([(''x'', 1/10)], 1), ([(''x'', 3/10)], 1), ([(''x'', 1/2)], 1), ([(''x'', 7/10)], 1),
        ([(''x'', 9/10)], 17/10)]\<rparr>,
      \<lparr>dataName = ''obsData'', events =
       [([(''x'', 1/10)], 1), ([(''x'', 3/10)], 1), ([(''x'', 1/2)], 1), ([(''x'', 7/10)], 1),
        ([(''x'', 9/10)], 17/10)]\<rparr>,
      [\<lparr>rrvName = ''x'', getVal = 9/10, getMin = 0, getMax = 1, isConstant = False\<rparr>])"
proof -
  let ?d = "\<lparr>dataName = ''obsData'', events =
       [([(''x'', 1/10)], 1), ([(''x'', 3/10)], 1), ([(''x'', 1/2)], 1), ([(''x'', 7/10)], 1),
        ([(''x'', 9/10)], 17/10)]\<rparr>"
  let ?o = "[\<lparr>rrvName = ''x'', getVal = 0, getMin = 0, getMax = 1, isConstant = False\<rparr>]"
  have s: "sumEntries ?d = 57/10" by (simp add: sumEntries_def)
  have n: "numEntries ?d = 5" by (simp add: numEntries_def)
  have t: "toInt (57/10) = 5" by (simp add: toInt_def)
  have h: "toInt (sumEntries ?d) = numEntries ?d" by (simp add: s n t)
  have r: "rebinData 5 ?d ?o = Inr (\<lparr>dataName = ''obsData_old'', events =
       [([(''x'', 1/10)], 1), ([(''x'', 3/10)], 1), ([(''x'', 1/2)], 1), ([(''x'', 7/10)], 1),
        ([(''x'', 9/10)], 17/10)]\<rparr>,
      \<lparr>dataName = ''obsData'', events =
       [([(''x'', 1/10)], 1), ([(''x'', 3/10)], 1), ([(''x'', 1/2)], 1), ([(''x'', 7/10)], 1),
        ([(''x'', 9/10)], 17/10)]\<rparr>,
      [\<lparr>rrvName = ''x'', getVal = 9/10, getMin = 0, getMax = 1, isConstant = False\<rparr>])"
    by (simp add: rebinData_def createHistogram_def emptyTH1_def Fill_def FindBin_def
          GetBinCenter_def GetBinContent_def setVal_def rowOf_def Let_def eval_nat_numeral)
  from isBinned_truncated_sum [OF h, of 5 ?o] s n t r show ?thesis
    by simp
qed

subsection \<open>The classification of the parameters\<close>

lemma findByName_None: "(findByName args n = None) = (n \<notin> set (map rrvName args))"
  by (auto simp: findByName_def find_None_iff)

lemma findByName_Some:
  "findByName args n = Some var \<Longrightarrow> rrvName var = n \<and> n \<in> set (map rrvName args)"
  by (auto simp: findByName_def find_Some_iff)

lemma names_addVar: "names (addVar args a) = insert (rrvName a) (names args)"
  by (auto simp: names_def addVar_def)

lemma classify_POI:
  assumes "findByName (GetParametersOfInterest m_mc) (rrvName v) = Some var"
  shows "specRole m_mc v = POI"
    and "classifyParameter m_mc v s = s\<lparr>subPoi := addVar (subPoi s) var\<rparr>"
proof -
  show "specRole m_mc v = POI"
    using findByName_Some [OF assms] by (simp add: specRole_def)
  show "classifyParameter m_mc v s = s\<lparr>subPoi := addVar (subPoi s) var\<rparr>"
    by (simp add: classifyParameter_def assms)
qed

lemma classify_Gobs:
  assumes "findByName (GetParametersOfInterest m_mc) (rrvName v) = None"
    and "findByName (GetGlobalObservables m_mc) (rrvName v) = Some var"
  shows "specRole m_mc v = GlobalObservable"
    and "classifyParameter m_mc v s = s\<lparr>subGobs := addVar (subGobs s) var\<rparr>"
proof -
  show "specRole m_mc v = GlobalObservable"
    using assms(1) findByName_Some [OF assms(2)] by (simp add: specRole_def findByName_None)
  show "classifyParameter m_mc v s = s\<lparr>subGobs := addVar (subGobs s) var\<rparr>"
    by (simp add: classifyParameter_def assms)
qed

lemma classify_Cobs:
  assumes "findByName (GetParametersOfInterest m_mc) (rrvName v) = None"
    and "findByName (GetGlobalObservables m_mc) (rrvName v) = None"
    and "GetConditionalObservables m_mc = Some cobs"
    and "findByName cobs (rrvName v) = Some var"
  shows "specRole m_mc v = ConditionalObservable"
    and "classifyParameter m_mc v s = s\<lparr>subCobs := addVar (subCobs s) var\<rparr>"
proof -
  show "specRole m_mc v = ConditionalObservable"
    using assms(1,2,3) findByName_Some [OF assms(4)]
    by (simp add: specRole_def findByName_None)
  show "classifyParameter m_mc v s = s\<lparr>subCobs := addVar (subCobs s) var\<rparr>"
    by (simp add: classifyParameter_def m_hasCondObs_def assms)
qed

lemma classify_unmatched:
  assumes "findByName (GetParametersOfInterest m_mc) (rrvName v) = None"
    and "findByName (GetGlobalObservables m_mc) (rrvName v) = None"
    and "GetConditionalObservables m_mc = None \<or>
         (\<exists>cobs. GetConditionalObservables m_mc = Some cobs \<and> findByName cobs (rrvName v) = None)"
  shows "specRole m_mc v = (if \<not> isConstant v then Nuisance else Dropped)"
    and "classifyParameter m_mc v s =
           (if \<not> isConstant v then s\<lparr>subNuis := addVar (subNuis s) v\<rparr> else s)"
proof -
  show "specRole m_mc v = (if \<not> isConstant v then Nuisance else Dropped)"
    using assms by (auto simp: specRole_def findByName_None)
  from assms(3) have "(if m_hasCondObs m_mc
      then findByName (the (GetConditionalObservables m_mc)) (rrvName v) else None) = None"
    by (auto simp: m_hasCondObs_def)
  then show "classifyParameter m_mc v s =
      (if \<not> isConstant v then s\<lparr>subNuis := addVar (subNuis s) v\<rparr> else s)"
    by (simp add: classifyParameter_def assms(1,2))
qed

lemma classify_cases:
  obtains (poi) var where "findByName (GetParametersOfInterest m_mc) (rrvName v) = Some var"
  | (gobs) var where "findByName (GetParametersOfInterest m_mc) (rrvName v) = None"
      "findByName (GetGlobalObservables m_mc) (rrvName v) = Some var"
  | (cobs) cobs var where "findByName (GetParametersOfInterest m_mc) (rrvName v) = None"
      "findByName (GetGlobalObservables m_mc) (rrvName v) = None"
      "GetConditionalObservables m_mc = Some cobs" "findByName cobs (rrvName v) = Some var"
  | (unmatched) "findByName (GetParametersOfInterest m_mc) (rrvName v) = None"
      "findByName (GetGlobalObservables m_mc) (rrvName v) = None"
      "GetConditionalObservables m_mc = None \<or>
         (\<exists>cobs. GetConditionalObservables m_mc = Some cobs \<and> findByName cobs (rrvName v) = None)"
proof (cases "findByName (GetParametersOfInterest m_mc) (rrvName v)")
  case (Some var)
  then show thesis by (rule poi)
next
  case pN: None
  show thesis
  proof (cases "findByName (GetGlobalObservables m_mc) (rrvName v)")
    case (Some var)
    with pN show thesis by (rule gobs)
  next
    case gN: None
    show thesis
    proof (cases "GetConditionalObservables m_mc")
      case None
      with pN gN show thesis using unmatched by blast
    next
      case cS: (Some cs)
      show thesis
      proof (cases "findByName cs (rrvName v)")
        case None
        with pN gN cS show thesis using unmatched by blast
      next
        case (Some var)
        with pN gN cS show thesis by (rule cobs)
      qed
    qed
  qed
qed

lemma classifyParameter_refines:
  "classifyParameter m_mc v s =
     (case specRole m_mc v of
        POI \<Rightarrow> s\<lparr>subPoi := addVar (subPoi s)
                  (the (findByName (GetParametersOfInterest m_mc) (rrvName v)))\<rparr>
      | GlobalObservable \<Rightarrow> s\<lparr>subGobs := addVar (subGobs s)
                  (the (findByName (GetGlobalObservables m_mc) (rrvName v)))\<rparr>
      | ConditionalObservable \<Rightarrow> s\<lparr>subCobs := addVar (subCobs s)
                  (the (findByName (the (GetConditionalObservables m_mc)) (rrvName v)))\<rparr>
      | Nuisance \<Rightarrow> s\<lparr>subNuis := addVar (subNuis s) v\<rparr>
      | Dropped \<Rightarrow> s) \<and>
   names (subPoi (classifyParameter m_mc v s)) =
     names (subPoi s) \<union> (if specRole m_mc v = POI then {rrvName v} else {}) \<and>
   names (subGobs (classifyParameter m_mc v s)) =
     names (subGobs s) \<union> (if specRole m_mc v = GlobalObservable then {rrvName v} else {}) \<and>
   names (subCobs (classifyParameter m_mc v s)) =
     names (subCobs s) \<union> (if specRole m_mc v = ConditionalObservable then {rrvName v} else {}) \<and>
   names (subNuis (classifyParameter m_mc v s)) =
     names (subNuis s) \<union> (if specRole m_mc v = Nuisance then {rrvName v} else {})"
proof (cases rule: classify_cases [of m_mc v])
  case (poi var)
  from classify_POI [OF poi] findByName_Some [OF poi] poi show ?thesis
    by (simp add: names_addVar)
next
  case (gobs var)
  from classify_Gobs [OF gobs] findByName_Some [OF gobs(2)] gobs show ?thesis
    by (simp add: names_addVar)
next
  case (cobs cs var)
  from classify_Cobs [OF cobs] findByName_Some [OF cobs(4)] cobs show ?thesis
    by (simp add: names_addVar)
next
  case unmatched
  from classify_unmatched [OF unmatched] show ?thesis
    by (simp add: names_addVar)
qed


lemma specRole_names:
  "(specRole m_mc v = POI \<longrightarrow> rrvName v \<in> names (GetParametersOfInterest m_mc)) \<and>
   (specRole m_mc v = GlobalObservable \<longrightarrow>
      rrvName v \<in> names (GetGlobalObservables m_mc) \<and>
      rrvName v \<notin> names (GetParametersOfInterest m_mc)) \<and>
   (specRole m_mc v = ConditionalObservable \<longrightarrow>
      rrvName v \<in> (case GetConditionalObservables m_mc of Some cs \<Rightarrow> names cs | None \<Rightarrow> {}) \<and>
      rrvName v \<notin> names (GetGlobalObservables m_mc) \<and>
      rrvName v \<notin> names (GetParametersOfInterest m_mc)) \<and>
   (specRole m_mc v = Nuisance \<longrightarrow>
      rrvName v \<notin> (case GetConditionalObservables m_mc of Some cs \<Rightarrow> names cs | None \<Rightarrow> {}) \<and>
      rrvName v \<notin> names (GetGlobalObservables m_mc) \<and>
      rrvName v \<notin> names (GetParametersOfInterest m_mc))"
  by (auto simp: specRole_def names_def split: if_splits option.splits)

lemma classifyParameter_invariant:
  assumes "names (subPoi s) \<subseteq> P" and "names (subGobs s) \<subseteq> G - P"
    and "names (subCobs s) \<subseteq> C - G - P" and "names (subNuis s) \<inter> (P \<union> G \<union> C) = {}"
    and "P = names (GetParametersOfInterest m_mc)" and "G = names (GetGlobalObservables m_mc)"
    and "C = (case GetConditionalObservables m_mc of Some cs \<Rightarrow> names cs | None \<Rightarrow> {})"
  shows "names (subPoi (classifyParameter m_mc v s)) \<subseteq> P \<and>
         names (subGobs (classifyParameter m_mc v s)) \<subseteq> G - P \<and>
         names (subCobs (classifyParameter m_mc v s)) \<subseteq> C - G - P \<and>
         names (subNuis (classifyParameter m_mc v s)) \<inter> (P \<union> G \<union> C) = {}"
proof -
  note r = classifyParameter_refines [of m_mc v s] and n = specRole_names [of m_mc v]
  have 1: "names (subPoi (classifyParameter m_mc v s)) \<subseteq> P"
    using r n assms(1,5) by (auto split: if_splits)
  have 2: "names (subGobs (classifyParameter m_mc v s)) \<subseteq> G - P"
    using r n assms(2,5,6) by (auto split: if_splits)
  have 3: "names (subCobs (classifyParameter m_mc v s)) \<subseteq> C - G - P"
    using r n assms(3,5,6,7) by (auto split: if_splits)
  have 4: "names (subNuis (classifyParameter m_mc v s)) \<inter> (P \<union> G \<union> C) = {}"
    using r n assms(4,5,6,7) by (auto split: if_splits)
  from 1 2 3 4 show ?thesis by simp
qed

lemma classifyParameters_invariant:
  assumes "names (subPoi s) \<subseteq> P" and "names (subGobs s) \<subseteq> G - P"
    and "names (subCobs s) \<subseteq> C - G - P" and "names (subNuis s) \<inter> (P \<union> G \<union> C) = {}"
    and "P = names (GetParametersOfInterest m_mc)" and "G = names (GetGlobalObservables m_mc)"
    and "C = (case GetConditionalObservables m_mc of Some cs \<Rightarrow> names cs | None \<Rightarrow> {})"
  shows "names (subPoi (classifyParameters m_mc indivNuis s)) \<subseteq> P \<and>
         names (subGobs (classifyParameters m_mc indivNuis s)) \<subseteq> G - P \<and>
         names (subCobs (classifyParameters m_mc indivNuis s)) \<subseteq> C - G - P \<and>
         names (subNuis (classifyParameters m_mc indivNuis s)) \<inter> (P \<union> G \<union> C) = {}"
  using assms(1-4)
proof (induction indivNuis arbitrary: s)
  case Nil
  then show ?case by (simp add: classifyParameters_def)
next
  case (Cons v vs)
  from classifyParameter_invariant [OF Cons.prems assms(5-7), of v]
  have "names (subPoi (classifyParameters m_mc vs (classifyParameter m_mc v s))) \<subseteq> P \<and>
        names (subGobs (classifyParameters m_mc vs (classifyParameter m_mc v s))) \<subseteq> G - P \<and>
        names (subCobs (classifyParameters m_mc vs (classifyParameter m_mc v s))) \<subseteq> C - G - P \<and>
        names (subNuis (classifyParameters m_mc vs (classifyParameter m_mc v s))) \<inter> (P \<union> G \<union> C) = {}"
    by (intro Cons.IH) simp_all
  then show ?case by (simp add: classifyParameters_def)
qed

lemma classifyParameters_disjoint:
  "names (subPoi (classifyParameters m_mc indivNuis emptySubSets)) \<inter>
     names (subGobs (classifyParameters m_mc indivNuis emptySubSets)) = {} \<and>
   names (subPoi (classifyParameters m_mc indivNuis emptySubSets)) \<inter>
     names (subCobs (classifyParameters m_mc indivNuis emptySubSets)) = {} \<and>
   names (subPoi (classifyParameters m_mc indivNuis emptySubSets)) \<inter>
     names (subNuis (classifyParameters m_mc indivNuis emptySubSets)) = {} \<and>
   names (subGobs (classifyParameters m_mc indivNuis emptySubSets)) \<inter>
     names (subCobs (classifyParameters m_mc indivNuis emptySubSets)) = {} \<and>
   names (subGobs (classifyParameters m_mc indivNuis emptySubSets)) \<inter>
     names (subNuis (classifyParameters m_mc indivNuis emptySubSets)) = {} \<and>
   names (subCobs (classifyParameters m_mc indivNuis emptySubSets)) \<inter>
     names (subNuis (classifyParameters m_mc indivNuis emptySubSets)) = {}"
proof -
  define P where "P = names (GetParametersOfInterest m_mc)"
  define G where "G = names (GetGlobalObservables m_mc)"
  define C where "C = (case GetConditionalObservables m_mc of Some cs \<Rightarrow> names cs | None \<Rightarrow> {})"
  have e: "names (subPoi emptySubSets) \<subseteq> P" "names (subGobs emptySubSets) \<subseteq> G - P"
    "names (subCobs emptySubSets) \<subseteq> C - G - P" "names (subNuis emptySubSets) \<inter> (P \<union> G \<union> C) = {}"
    by (simp_all add: emptySubSets_def names_def)
  from classifyParameters_invariant [OF e P_def G_def C_def, of indivNuis]
  show ?thesis by blast
qed


text \<open>
  C7: one step of the classifier does to the four sets exactly what the role of the
  specification says: the parameter goes to the set of its role (as the member of that
  name of the original set, for the first three roles) and to no other, and a dropped
  parameter leaves the four sets as they were. The role is the first that applies of:
  POI by membership in the original POI set, global observable, conditional observable
  (only when the original model declares conditional observables), nuisance when not
  constant, dropped. And whatever parameters the loop has classified, from empty sets on,
  no name is in two of the four sets.
\<close>

theorem classifyParameter_role:
  "classifyParameter m_mc v s =
     (case specRole m_mc v of
        POI \<Rightarrow> s\<lparr>subPoi := addVar (subPoi s)
                  (the (findByName (GetParametersOfInterest m_mc) (rrvName v)))\<rparr>
      | GlobalObservable \<Rightarrow> s\<lparr>subGobs := addVar (subGobs s)
                  (the (findByName (GetGlobalObservables m_mc) (rrvName v)))\<rparr>
      | ConditionalObservable \<Rightarrow> s\<lparr>subCobs := addVar (subCobs s)
                  (the (findByName (the (GetConditionalObservables m_mc)) (rrvName v)))\<rparr>
      | Nuisance \<Rightarrow> s\<lparr>subNuis := addVar (subNuis s) v\<rparr>
      | Dropped \<Rightarrow> s) \<and>
   names (subPoi (classifyParameter m_mc v s)) =
     names (subPoi s) \<union> (if specRole m_mc v = POI then {rrvName v} else {}) \<and>
   names (subGobs (classifyParameter m_mc v s)) =
     names (subGobs s) \<union> (if specRole m_mc v = GlobalObservable then {rrvName v} else {}) \<and>
   names (subCobs (classifyParameter m_mc v s)) =
     names (subCobs s) \<union> (if specRole m_mc v = ConditionalObservable then {rrvName v} else {}) \<and>
   names (subNuis (classifyParameter m_mc v s)) =
     names (subNuis s) \<union> (if specRole m_mc v = Nuisance then {rrvName v} else {}) \<and>
   names (subPoi (classifyParameters m_mc indivNuis emptySubSets)) \<inter>
     names (subGobs (classifyParameters m_mc indivNuis emptySubSets)) = {} \<and>
   names (subPoi (classifyParameters m_mc indivNuis emptySubSets)) \<inter>
     names (subCobs (classifyParameters m_mc indivNuis emptySubSets)) = {} \<and>
   names (subPoi (classifyParameters m_mc indivNuis emptySubSets)) \<inter>
     names (subNuis (classifyParameters m_mc indivNuis emptySubSets)) = {} \<and>
   names (subGobs (classifyParameters m_mc indivNuis emptySubSets)) \<inter>
     names (subCobs (classifyParameters m_mc indivNuis emptySubSets)) = {} \<and>
   names (subGobs (classifyParameters m_mc indivNuis emptySubSets)) \<inter>
     names (subNuis (classifyParameters m_mc indivNuis emptySubSets)) = {} \<and>
   names (subCobs (classifyParameters m_mc indivNuis emptySubSets)) \<inter>
     names (subNuis (classifyParameters m_mc indivNuis emptySubSets)) = {}"
  using classifyParameter_refines [of m_mc v s] classifyParameters_disjoint [of m_mc indivNuis]
  by (intro conjI) blast+

text \<open>
  An instance: \<open>mu\<close> is a POI of the original model, \<open>nom\<close> a global observable, no
  conditional observables are declared; the channel has the parameters \<open>mu\<close>, \<open>nom\<close>,
  \<open>alpha\<close> (free) and \<open>lumi\<close> (constant).
\<close>

theorem classifyParameter_role_witness:
  "classifyParameters
     \<lparr>GetParametersOfInterest =
        [\<lparr>rrvName = ''mu'', getVal = 1, getMin = 0, getMax = 5, isConstant = False\<rparr>],
      GetGlobalObservables =
        [\<lparr>rrvName = ''nom'', getVal = 0, getMin = - 5, getMax = 5, isConstant = True\<rparr>],
      GetConditionalObservables = None\<rparr>
     [\<lparr>rrvName = ''mu'', getVal = 1, getMin = 0, getMax = 5, isConstant = False\<rparr>,
      \<lparr>rrvName = ''nom'', getVal = 0, getMin = - 5, getMax = 5, isConstant = True\<rparr>,
      \<lparr>rrvName = ''alpha'', getVal = 0, getMin = - 5, getMax = 5, isConstant = False\<rparr>,
      \<lparr>rrvName = ''lumi'', getVal = 1, getMin = 0, getMax = 2, isConstant = True\<rparr>]
     emptySubSets =
   \<lparr>subPoi = [\<lparr>rrvName = ''mu'', getVal = 1, getMin = 0, getMax = 5, isConstant = False\<rparr>],
    subGobs = [\<lparr>rrvName = ''nom'', getVal = 0, getMin = - 5, getMax = 5, isConstant = True\<rparr>],
    subCobs = [],
    subNuis = [\<lparr>rrvName = ''alpha'', getVal = 0, getMin = - 5, getMax = 5, isConstant = False\<rparr>]\<rparr>"
proof -
  let ?mu = "\<lparr>rrvName = ''mu'', getVal = 1, getMin = 0, getMax = 5, isConstant = False\<rparr>"
  let ?nom = "\<lparr>rrvName = ''nom'', getVal = 0, getMin = - 5, getMax = 5, isConstant = True\<rparr>"
  let ?alpha = "\<lparr>rrvName = ''alpha'', getVal = 0, getMin = - 5, getMax = 5, isConstant = False\<rparr>"
  let ?lumi = "\<lparr>rrvName = ''lumi'', getVal = 1, getMin = 0, getMax = 2, isConstant = True\<rparr>"
  let ?mc = "\<lparr>GetParametersOfInterest = [?mu], GetGlobalObservables = [?nom],
              GetConditionalObservables = None\<rparr>"
  have r: "specRole ?mc ?mu = POI" "specRole ?mc ?nom = GlobalObservable"
    "specRole ?mc ?alpha = Nuisance" "specRole ?mc ?lumi = Dropped"
    by (simp_all add: specRole_def)
  have step: "classifyParameter ?mc v s =
     (case specRole ?mc v of
        POI \<Rightarrow> s\<lparr>subPoi := addVar (subPoi s)
                  (the (findByName (GetParametersOfInterest ?mc) (rrvName v)))\<rparr>
      | GlobalObservable \<Rightarrow> s\<lparr>subGobs := addVar (subGobs s)
                  (the (findByName (GetGlobalObservables ?mc) (rrvName v)))\<rparr>
      | ConditionalObservable \<Rightarrow> s\<lparr>subCobs := addVar (subCobs s)
                  (the (findByName (the (GetConditionalObservables ?mc)) (rrvName v)))\<rparr>
      | Nuisance \<Rightarrow> s\<lparr>subNuis := addVar (subNuis s) v\<rparr>
      | Dropped \<Rightarrow> s)" for v s
    using classifyParameter_role [of ?mc v s "[]"] by (rule conjunct1)
  show ?thesis
    by (simp add: classifyParameters_def step r emptySubSets_def addVar_def findByName_def)
qed

end
